theory Spec2Isabelle
  imports Main
begin

section \<open>ISBN utilities (src/utils/isbn.js)\<close>

subsection \<open>Strings and code units\<close>

text \<open>
  A JavaScript string is a sequence of 16-bit code units. The model has the code units
  U+0000 to U+00FF, one for each \<open>char\<close>, and the two code units outside that range that
  \<open>toUpperCase\<close> produces from them: U+039C, the upper-case form of U+00B5, and U+0178, the
  upper-case form of U+00FF. Every operation below maps strings over these 258 code units to
  strings over them, and on them it is the JavaScript operation. \<open>str\<close> turns a literal
  into such a string. The cache and the provider chain further below only store, compare and
  pass on the text they handle; there it is kept as \<open>string\<close>.
\<close>

datatype codeUnit = Latin char | U039C | U0178

type_synonym jsString = "codeUnit list"

definition str :: "string \<Rightarrow> jsString" where
  "str s = map Latin s"

text \<open>The number of a code unit.\<close>

definition code :: "codeUnit \<Rightarrow> nat" where
  "code u = (case u of Latin c \<Rightarrow> of_char c | U039C \<Rightarrow> 924 | U0178 \<Rightarrow> 376)"

text \<open>\<open>\d\<close>: the ASCII digits \<open>0\<close> to \<open>9\<close>.\<close>

definition isDigit :: "codeUnit \<Rightarrow> bool" where
  "isDigit u \<longleftrightarrow> 48 \<le> code u \<and> code u \<le> 57"

definition digitValue :: "codeUnit \<Rightarrow> nat" where
  "digitValue u = code u - 48"

text \<open>
  \<open>parseInt(ch, 10)\<close> on a string of one code unit: the digit's value, or \<open>NaN\<close>
  (\<open>None\<close>) for every other code unit.
\<close>

definition parseInt :: "codeUnit \<Rightarrow> nat option" where
  "parseInt u = (if isDigit u then Some (digitValue u) else None)"

text \<open>
  \<open>\s\<close>: of the code units of the model, tab, line feed, vertical tab, form feed, carriage
  return, space and no-break space.
\<close>

definition isWhiteSpace :: "codeUnit \<Rightarrow> bool" where
  "isWhiteSpace u \<longleftrightarrow> code u \<in> {9, 10, 11, 12, 13, 32, 160}"

text \<open>The character class \<open>[\s\-]\<close>.\<close>

definition isSeparator :: "codeUnit \<Rightarrow> bool" where
  "isSeparator u \<longleftrightarrow> isWhiteSpace u \<or> u = Latin (CHR ''-'')"

text \<open>
  \<open>toUpperCase\<close> maps each code unit on its own (the model has no surrogates). The letters
  \<open>a\<close> to \<open>z\<close> (97 to 122) and U+00E0 to U+00FE (224 to 254) without the division sign
  U+00F7 (247) go to the code unit 32 below; U+00DF (223) goes to the two letters \<open>SS\<close>;
  U+00B5 (181) goes to U+039C and U+00FF (255) to U+0178; every other code unit of the model,
  U+039C and U+0178 among them, stays as it is.
\<close>

definition upperUnit :: "codeUnit \<Rightarrow> jsString" where
  "upperUnit u =
     (if (97 \<le> code u \<and> code u \<le> 122) \<or> (224 \<le> code u \<and> code u \<le> 254 \<and> code u \<noteq> 247)
        then [Latin (char_of (code u - 32))]
      else if code u = 223 then [Latin (CHR ''S''), Latin (CHR ''S'')]
      else if code u = 181 then [U039C]
      else if code u = 255 then [U0178]
      else [u])"

definition toUpperCase :: "jsString \<Rightarrow> jsString" where
  "toUpperCase s = concat (map upperUnit s)"

text \<open>\<open>s.slice(a, b)\<close> for \<open>0 \<le> a \<le> b\<close>; \<open>s.slice(a)\<close> is \<open>drop a s\<close>.\<close>

definition slice :: "jsString \<Rightarrow> nat \<Rightarrow> nat \<Rightarrow> jsString" where
  "slice s a b = take (b - a) (drop a s)"

definition startsWith :: "jsString \<Rightarrow> jsString \<Rightarrow> bool" where
  "startsWith s p \<longleftrightarrow> take (length p) s = p"

subsection \<open>Normalisation and checksums\<close>

text \<open>\<open>isbn.replace(/[\s\-]/g, '').toUpperCase()\<close>\<close>

definition normalizeISBN :: "jsString \<Rightarrow> jsString" where
  "normalizeISBN isbn = toUpperCase (filter (\<lambda>c. \<not> isSeparator c) isbn)"

text \<open>
  The summing loops of the two validators and of the converter:
  \<open>for (i ...) { digit = parseInt(s[i], 10); if (isNaN(digit)) return false; sum += digit * w(i) }\<close>.
  The indices visited are given as a list; \<open>None\<close> is the early exit on \<open>NaN\<close>.
\<close>

fun digitLoop :: "(nat \<Rightarrow> nat) \<Rightarrow> jsString \<Rightarrow> nat list \<Rightarrow> nat \<Rightarrow> nat option" where
  "digitLoop w s [] acc = Some acc"
| "digitLoop w s (i # is) acc =
     (case parseInt (s ! i) of
        None \<Rightarrow> None
      | Some digit \<Rightarrow> digitLoop w s is (acc + digit * w i))"

text \<open>\<open>10 - i\<close>\<close>

definition weight10 :: "nat \<Rightarrow> nat" where
  "weight10 i = 10 - i"

text \<open>\<open>i % 2 === 0 ? 1 : 3\<close>\<close>

definition weight13 :: "nat \<Rightarrow> nat" where
  "weight13 i = (if i mod 2 = 0 then 1 else 3)"

definition validateISBN10Checksum :: "jsString \<Rightarrow> bool" where
  "validateISBN10Checksum isbn10 =
     (if length isbn10 \<noteq> 10 then False
      else case digitLoop weight10 isbn10 [0..<9] 0 of
        None \<Rightarrow> False
      | Some acc \<Rightarrow>
          (case (if isbn10 ! 9 = Latin (CHR ''X'') then Some 10 else parseInt (isbn10 ! 9)) of
             None \<Rightarrow> False
           | Some checkDigit \<Rightarrow> (acc + checkDigit) mod 11 = 0))"

definition validateISBN13Checksum :: "jsString \<Rightarrow> bool" where
  "validateISBN13Checksum isbn13 =
     (if length isbn13 \<noteq> 13 then False
      else case digitLoop weight13 isbn13 [0..<13] 0 of
        None \<Rightarrow> False
      | Some acc \<Rightarrow> acc mod 10 = 0)"

definition isValidISBN :: "jsString \<Rightarrow> bool" where
  "isValidISBN isbn =
     (let normalized = normalizeISBN isbn in
      if length normalized = 10 then validateISBN10Checksum normalized
      else if length normalized = 13 then
        (if \<not> startsWith normalized (str ''978'') \<and> \<not> startsWith normalized (str ''979'') then False
         else validateISBN13Checksum normalized)
      else False)"

text \<open>
  The specification's normaliser (4.1), read one character at a time: white space and hyphens
  are removed, every other character is replaced by its upper-case form.
\<close>

fun specNormalize :: "jsString \<Rightarrow> jsString" where
  "specNormalize [] = []"
| "specNormalize (c # cs) =
     (if isWhiteSpace c \<or> c = Latin (CHR ''-'') then specNormalize cs
      else upperUnit c @ specNormalize cs)"

text \<open>
  The functions above take a string. Called with a primitive value that is not a string,
  \<open>isValidISBN\<close> raises a \<open>TypeError\<close> at its first step, \<open>isbn.replace(...)\<close> in
  \<open>normalizeISBN\<close>: \<open>null\<close> and \<open>undefined\<close> have no properties, and a number or a
  Boolean has no \<open>replace\<close>.
\<close>

datatype jsValue = JSString jsString | JSNumber int | JSBoolean bool | JSNull | JSUndefined

datatype typeError = TypeError

definition isValidISBN_call :: "jsValue \<Rightarrow> typeError + bool" where
  "isValidISBN_call v = (case v of JSString isbn \<Rightarrow> Inr (isValidISBN isbn) | _ \<Rightarrow> Inl TypeError)"

subsection \<open>Conversion and formatting\<close>

text \<open>
  \<open>null\<close> is \<open>None\<close>. The converter's loop has no \<open>NaN\<close> exit: a \<open>NaN\<close> sum would
  be appended as the text \<open>NaN\<close>. The check digit is a number below 10, appended as its
  decimal digit.
\<close>

definition convertISBN10ToISBN13 :: "jsString \<Rightarrow> jsString option" where
  "convertISBN10ToISBN13 isbn10 =
     (let normalized = normalizeISBN isbn10 in
      if length normalized \<noteq> 10 \<or> \<not> validateISBN10Checksum normalized then None
      else
        let base = str ''978'' @ slice normalized 0 9 in
        case digitLoop weight13 base [0..<12] 0 of
          None \<Rightarrow> Some (base @ str ''NaN'')
        | Some acc \<Rightarrow> Some (base @ [Latin (''0123456789'' ! ((10 - acc mod 10) mod 10))]))"

definition formatISBN :: "jsString \<Rightarrow> jsString" where
  "formatISBN isbn =
     (let normalized = normalizeISBN isbn in
      if length normalized = 13 then
        slice normalized 0 3 @ str ''-'' @ slice normalized 3 4 @ str ''-'' @ slice normalized 4 7
          @ str ''-'' @ slice normalized 7 12 @ str ''-'' @ drop 12 normalized
      else if length normalized = 10 then
        slice normalized 0 1 @ str ''-'' @ slice normalized 1 4 @ str ''-'' @ slice normalized 4 9
          @ str ''-'' @ drop 9 normalized
      else isbn)"

section \<open>Extraction (src/utils/isbn.js, src/config/constants.js)\<close>

subsection \<open>The pattern engine\<close>

text \<open>
  The two patterns of \<open>ISBN_PATTERNS\<close> and the label pattern of \<open>extractISBNs\<close> use literal
  characters, character classes, sequence, the greedy quantifiers \<open>?\<close> and \<open>*\<close>, and the
  counted repetition \<open>{9}\<close>; they have no capture group, alternation or anchor. \<open>matches r s\<close>
  lists what remains of \<open>s\<close> after each way \<open>r\<close> can match a prefix of \<open>s\<close>, in the order in
  which a backtracking matcher tries them: a greedy quantifier tries one more iteration before
  it tries to stop, and an iteration of \<open>?\<close> or \<open>*\<close> that consumes nothing is not taken.
  The head of the list is the match the engine reports at that position.
\<close>

datatype regex =
    Eps
  | Chr "codeUnit \<Rightarrow> bool"
  | Seq regex regex
  | Opt regex
  | Star regex
  | Rep nat regex

function matches :: "regex \<Rightarrow> jsString \<Rightarrow> jsString list" where
  "matches Eps s = [s]"
| "matches (Chr p) s = (case s of [] \<Rightarrow> [] | c # t \<Rightarrow> if p c then [t] else [])"
| "matches (Seq a b) s = concat (map (matches b) (matches a s))"
| "matches (Opt a) s = filter (\<lambda>t. length t < length s) (matches a s) @ [s]"
| "matches (Star a) s =
     concat (map (matches (Star a)) (filter (\<lambda>t. length t < length s) (matches a s))) @ [s]"
| "matches (Rep n a) s =
     (if n = 0 then [s] else concat (map (matches (Rep (n - 1) a)) (matches a s)))"
  by pat_completeness auto
termination
  by (relation "inv_image (less_than <*lex*> less_than <*lex*> less_than)
        (\<lambda>(r, s). (size r, case r of Rep n _ \<Rightarrow> n | _ \<Rightarrow> 0, length s))") auto

text \<open>
  All three patterns carry the flag \<open>i\<close> and not the flag \<open>u\<close>: two code units are taken for
  the same when they have the same canonical form. The canonical form of a code unit is its
  upper-case form, unless that form is longer than one code unit, or is below U+0080 when the
  code unit itself is not; then it is the code unit itself.
\<close>

definition canonicalize :: "codeUnit \<Rightarrow> codeUnit" where
  "canonicalize ch =
     (case upperUnit ch of
        [cu] \<Rightarrow> if 128 \<le> code ch \<and> code cu < 128 then ch else cu
      | _ \<Rightarrow> ch)"

definition Seqs :: "regex list \<Rightarrow> regex" where
  "Seqs rs = foldr Seq rs Eps"

definition litI :: "string \<Rightarrow> regex" where
  "litI s = Seqs (map (\<lambda>c. Chr (\<lambda>x. canonicalize x = canonicalize (Latin c))) s)"

text \<open>
  \<open>text.matchAll(pattern)\<close> for a pattern with the flag \<open>g\<close>: the matched substrings from left
  to right. The search tries each start position in turn and resumes where the previous match
  ended, one character further on after an empty match.
\<close>

function matchAll :: "regex \<Rightarrow> jsString \<Rightarrow> jsString list" where
  "matchAll r s =
     (case matches r s of
        [] \<Rightarrow> (case s of [] \<Rightarrow> [] | c # s' \<Rightarrow> matchAll r s')
      | t # _ \<Rightarrow>
          take (length s - length t) s #
            (if length t < length s then matchAll r t
             else case s of [] \<Rightarrow> [] | c # s' \<Rightarrow> matchAll r s'))"
  by pat_completeness auto
termination
  by (relation "measure (\<lambda>(r, s). length s)") auto

declare matchAll.simps [simp del]

text \<open>\<open>s.replace(pattern, '')\<close> for a pattern without the flag \<open>g\<close>: the leftmost match is removed.\<close>

fun replaceFirst :: "regex \<Rightarrow> jsString \<Rightarrow> jsString" where
  "replaceFirst r [] = []"
| "replaceFirst r (c # s) =
     (case matches r (c # s) of
        [] \<Rightarrow> c # replaceFirst r s
      | t # _ \<Rightarrow> t)"

subsection \<open>The patterns\<close>

text \<open>
  \<open>/ISBN(?:-13)?:?\s*/i\<close> and \<open>/ISBN(?:-10)?:?\s*/i\<close>, the label patterns that
  \<open>extractISBNs\<close> removes from a match; the same text is the optional first group of the two
  patterns of \<open>ISBN_PATTERNS\<close>:
  \<open>/(?:ISBN(?:-13)?:?\s*)?(?:97[89][\s\-]?(?:\d[\s\-]?){9}\d)/gi\<close> and
  \<open>/(?:ISBN(?:-10)?:?\s*)?(?:\d[\s\-]?){9}[\dXx]/gi\<close>.
  A class matches a code unit whose canonical form is that of a member of the class. The
  digits, the white space and the hyphen are their own canonical forms and those of no other
  code unit (\<open>canonicalize_class\<close> below), so that the flag \<open>i\<close> changes nothing for
  \<open>\d\<close>, \<open>\s\<close>, \<open>[\s\-]\<close> and \<open>[89]\<close>; of \<open>[\dXx]\<close> it leaves the digits and the
  code units of canonical form \<open>X\<close>.
\<close>

definition labelISBN13 :: regex where
  "labelISBN13 = Seqs [litI ''ISBN'', Opt (litI ''-13''), Opt (litI '':''), Star (Chr isWhiteSpace)]"

definition labelISBN10 :: regex where
  "labelISBN10 = Seqs [litI ''ISBN'', Opt (litI ''-10''), Opt (litI '':''), Star (Chr isWhiteSpace)]"

definition ISBN13 :: regex where
  "ISBN13 = Seqs [Opt labelISBN13,
     litI ''97'', Chr (\<lambda>c. c \<in> set (str ''89'')), Opt (Chr isSeparator),
     Rep 9 (Seq (Chr isDigit) (Opt (Chr isSeparator))), Chr isDigit]"

definition ISBN10 :: regex where
  "ISBN10 = Seqs [Opt labelISBN10,
     Rep 9 (Seq (Chr isDigit) (Opt (Chr isSeparator))),
     Chr (\<lambda>c. isDigit c \<or> canonicalize c = Latin (CHR ''X''))]"

subsection \<open>extractISBNs\<close>

text \<open>
  \<open>foundISBNs\<close> is a \<open>Set\<close> of strings, kept as the list of its elements in insertion
  order, which is the order \<open>Array.from\<close> returns. \<open>collectISBNs\<close> is the body shared by the
  two \<open>for ... of\<close> loops, which differ in the label pattern and the expected length.
\<close>

definition setAdd :: "jsString list \<Rightarrow> jsString \<Rightarrow> jsString list" where
  "setAdd found x = (if x \<in> set found then found else found @ [x])"

fun collectISBNs :: "regex \<Rightarrow> nat \<Rightarrow> jsString list \<Rightarrow> jsString list \<Rightarrow> jsString list" where
  "collectISBNs lbl n found [] = found"
| "collectISBNs lbl n found (m # ms) =
     (let isbn = normalizeISBN (replaceFirst lbl m) in
      collectISBNs lbl n (if length isbn = n \<and> isValidISBN isbn then setAdd found isbn else found) ms)"

definition extractISBNs :: "jsString \<Rightarrow> jsString list" where
  "extractISBNs text =
     (let foundISBNs = collectISBNs labelISBN13 13 [] (matchAll ISBN13 text) in
      collectISBNs labelISBN10 10 foundISBNs (matchAll ISBN10 text))"

subsection \<open>What the specification says of the result\<close>

text \<open>
  The specification's ``duplicates removed, first-occurrence order preserved'': of each value
  the first occurrence is kept.
\<close>

definition firstOccurrences :: "'a list \<Rightarrow> 'a list" where
  "firstOccurrences xs = rev (remdups (rev xs))"

text \<open>
  The candidates of a scan are its matches with the label removed, normalised; the accepted
  ones have the expected length and pass \<open>isValidISBN\<close>.
\<close>

definition candidates :: "regex \<Rightarrow> regex \<Rightarrow> jsString \<Rightarrow> jsString list" where
  "candidates pat lbl text = map (\<lambda>m. normalizeISBN (replaceFirst lbl m)) (matchAll pat text)"

definition accepted :: "nat \<Rightarrow> jsString list \<Rightarrow> jsString list" where
  "accepted n cs = filter (\<lambda>isbn. length isbn = n \<and> isValidISBN isbn) cs"

section \<open>Metadata cache and provider chain\<close>

text \<open>
  The background service worker (\<open>handleFetchBookInfo\<close>, \<open>handleGetDetectedBooks\<close>), the two
  provider modules \<open>api/google-books.js\<close> and \<open>api/open-library.js\<close>, and \<open>utils/storage.js\<close>.
\<close>

subsection \<open>Books and cache entries\<close>

text \<open>
  The metadata object that the parsers build has eleven fields; the placeholder that
  \<open>handleGetDetectedBooks\<close> builds has the first six only, so the other five are optional as
  a group. A cache entry is the object literal that \<open>cacheBookInfo\<close> writes, kept as its
  list of fields so that the names of the fields are data.
\<close>

record publication =
  publishedDate :: string
  publisher :: string
  pageCount :: nat
  categories :: "string list"
  language :: string

record book =
  bookIsbn :: string
  bookTitle :: string
  bookAuthors :: "string list"
  bookDescription :: string
  bookThumbnail :: string
  bookSource :: string
  bookPublication :: "publication option"

datatype field = Data book | Number int

type_synonym entry = "(string \<times> field) list"

subsection \<open>The world outside the code\<close>

text \<open>
  What the code reads and changes: the value stored under the key \<open>bookMetadataCache\<close> of
  \<open>chrome.storage.local\<close> (\<open>None\<close> while the key is unset), whether that storage answers
  at all, the clock that \<open>Date.now()\<close> reads (milliseconds), the requests issued so far,
  the worker's \<open>tabISBNs\<close> map, and the answer of \<open>chrome.tabs.query\<close> for the active tab.
\<close>

datatype request = GoogleVolumes string | OpenLibraryBooks string | OpenLibraryISBN string

datatype exn = Error string

fun message :: "exn \<Rightarrow> string" where
  "message (Error m) = m"

record world =
  bookMetadataCache :: "(string \<rightharpoonup> entry) option"
  storageAvailable :: bool
  clock :: int
  requests :: "request list"
  tabISBNs :: "nat \<rightharpoonup> string list"
  tabsQuery :: "exn + nat option"

text \<open>
  An \<open>async\<close> function either resolves with a value or rejects with an exception, and may
  change the world on the way. \<open>await m f\<close> continues with \<open>f\<close> when \<open>m\<close> resolves and
  rejects when \<open>m\<close> rejects; \<open>tryCatch m h\<close> is \<open>try { m } catch (error) { h error }\<close>.
\<close>

type_synonym 'a async = "world \<Rightarrow> (exn + 'a) \<times> world"

definition resolved :: "'a \<Rightarrow> 'a async" where
  "resolved x w = (Inr x, w)"

definition throw :: "exn \<Rightarrow> 'a async" where
  "throw e w = (Inl e, w)"

definition await :: "'a async \<Rightarrow> ('a \<Rightarrow> 'b async) \<Rightarrow> 'b async" where
  "await m f w = (case m w of (Inl e, w') \<Rightarrow> (Inl e, w') | (Inr x, w') \<Rightarrow> f x w')"

definition tryCatch :: "'a async \<Rightarrow> (exn \<Rightarrow> 'a async) \<Rightarrow> 'a async" where
  "tryCatch m h w = (case m w of (Inl e, w') \<Rightarrow> h e w' | (Inr x, w') \<Rightarrow> (Inr x, w'))"

text \<open>
  \<open>Promise.all\<close> over the promises of a list, run here one after the other in the order of
  the list. The results come in that order, as in JavaScript.
\<close>

fun promiseAll :: "'a async list \<Rightarrow> 'a list async" where
  "promiseAll [] = resolved []"
| "promiseAll (m # ms) = await m (\<lambda>x. await (promiseAll ms) (\<lambda>xs. resolved (x # xs)))"

subsection \<open>Storage helpers (utils/storage.js)\<close>

definition dateNow :: "int async" where
  "dateNow w = (Inr (clock w), w)"

definition chromeStorageLocalGet :: "(string \<rightharpoonup> entry) option async" where
  "chromeStorageLocalGet w =
     (if storageAvailable w then (Inr (bookMetadataCache w), w)
      else (Inl (Error ''storage unavailable''), w))"

definition chromeStorageLocalSet :: "(string \<rightharpoonup> entry) \<Rightarrow> unit async" where
  "chromeStorageLocalSet v w =
     (if storageAvailable w then (Inr (), w\<lparr>bookMetadataCache := Some v\<rparr>)
      else (Inl (Error ''storage unavailable''), w))"

text \<open>
  \<open>getLocalStorage(STORAGE_KEYS.BOOK_METADATA_CACHE, defaultValue)\<close> and
  \<open>setLocalStorage(STORAGE_KEYS.BOOK_METADATA_CACHE, value)\<close>: the only key the cache code
  uses. The first returns the default when the key is unset or the storage rejects; the
  second logs and rethrows.
\<close>

definition getLocalStorage :: "(string \<rightharpoonup> entry) \<Rightarrow> (string \<rightharpoonup> entry) async" where
  "getLocalStorage defaultValue =
     tryCatch
       (await chromeStorageLocalGet (\<lambda>result.
          resolved (case result of None \<Rightarrow> defaultValue | Some v \<Rightarrow> v)))
       (\<lambda>error. resolved defaultValue)"

definition setLocalStorage :: "(string \<rightharpoonup> entry) \<Rightarrow> unit async" where
  "setLocalStorage v = tryCatch (chromeStorageLocalSet v) (\<lambda>error. throw error)"

subsection \<open>The cache (getCachedBookInfo, cacheBookInfo)\<close>

text \<open>
  Both provider modules declare these two functions with the same text and the same storage
  key, so they are modelled once. The cache is a plain object used as a map from ISBN to
  entry; the property names that every JavaScript object inherits (\<open>__proto__\<close> and the
  like) are not ISBNs and are not modelled as keys.
  \<open>DEFAULTS.CACHE_TTL_MS\<close> is \<open>24 * 60 * 60 * 1000\<close>.
\<close>

definition CACHE_TTL_MS :: int where
  "CACHE_TTL_MS = 24 * 60 * 60 * 1000"

text \<open>
  \<open>now - cached.timestamp > DEFAULTS.CACHE_TTL_MS\<close>. On an entry without a numeric
  \<open>timestamp\<close> the difference is \<open>NaN\<close> and the comparison is false.
\<close>

definition expired :: "int \<Rightarrow> entry \<Rightarrow> bool" where
  "expired now cached =
     (case map_of cached ''timestamp'' of
        Some (Number t) \<Rightarrow> now - t > CACHE_TTL_MS
      | _ \<Rightarrow> False)"

text \<open>
  \<open>cached.data\<close>, as the callers see it: they test it with \<open>if (cachedData)\<close>, so an entry
  without a book under \<open>data\<close> counts as a miss.
\<close>

definition cachedData :: "entry \<Rightarrow> book option" where
  "cachedData cached = (case map_of cached ''data'' of Some (Data b) \<Rightarrow> Some b | _ \<Rightarrow> None)"

definition getCachedBookInfo :: "string \<Rightarrow> book option async" where
  "getCachedBookInfo i =
     tryCatch
       (await (getLocalStorage Map.empty) (\<lambda>cache.
          case cache i of
            None \<Rightarrow> resolved None
          | Some cached \<Rightarrow>
              await dateNow (\<lambda>now.
                if expired now cached then resolved None
                else resolved (cachedData cached))))
       (\<lambda>error. resolved None)"

definition cacheBookInfo :: "string \<Rightarrow> book \<Rightarrow> unit async" where
  "cacheBookInfo i bookInfo =
     tryCatch
       (await (getLocalStorage Map.empty) (\<lambda>cache.
          await dateNow (\<lambda>now.
            setLocalStorage (cache(i \<mapsto> [(''data'', Data bookInfo), (''timestamp'', Number now)])))))
       (\<lambda>error. resolved ())"

subsection \<open>The network and the providers\<close>

text \<open>
  A request is answered by a rejection of \<open>fetch\<close> or by a response with its \<open>ok\<close> flag
  and its body; the body is \<open>None\<close> when reading it as JSON, or walking the parsed
  value, raises. The three kinds of payload (an item of the Google Books result list, a record
  of the Open Library books map, a document of the Open Library ISBN endpoint) are type
  parameters, and the three parsers, which are pure mappings from a payload and the ISBN
  to a metadata object, are parameters too: the chain passes their results on without
  looking into them. The answers may depend on the time of the request, and an
  answer takes \<open>latency\<close> milliseconds to arrive. The optional API key of the Google
  request only changes its URL and is left out.
\<close>

datatype 'a reply = Rejected | Response bool "'a option"

record ('g, 'b, 'i) env =
  googleVolumes :: "int \<Rightarrow> string \<Rightarrow> 'g list option reply"
  openLibraryBooks :: "int \<Rightarrow> string \<Rightarrow> (string \<rightharpoonup> 'b) reply"
  openLibraryISBN :: "int \<Rightarrow> string \<Rightarrow> 'i reply"
  latency :: "int \<Rightarrow> request \<Rightarrow> nat"
  parseGoogleBooksResponse :: "'g \<Rightarrow> string \<Rightarrow> book"
  parseOpenLibraryBooksResponse :: "'b \<Rightarrow> string \<Rightarrow> book"
  parseOpenLibraryISBNResponse :: "'i \<Rightarrow> string \<Rightarrow> book"

text \<open>The world once a request has been issued and answered.\<close>

definition sent :: "('g, 'b, 'i) env \<Rightarrow> request \<Rightarrow> world \<Rightarrow> world" where
  "sent e rq w =
     w\<lparr>requests := requests w @ [rq], clock := clock w + int (latency e (clock w) rq)\<rparr>"

definition fetch ::
  "('g, 'b, 'i) env \<Rightarrow> request \<Rightarrow> (int \<Rightarrow> 'a reply) \<Rightarrow> (bool \<times> 'a option) async" where
  "fetch e rq server w =
     (case server (clock w) of
        Rejected \<Rightarrow> (Inl (Error ''Failed to fetch''), sent e rq w)
      | Response ok body \<Rightarrow> (Inr (ok, body), sent e rq w))"

text \<open>\<open>response.json()\<close>\<close>

definition json :: "bool \<times> 'a option \<Rightarrow> 'a async" where
  "json response =
     (case snd response of
        None \<Rightarrow> throw (Error ''Unexpected response body'')
      | Some d \<Rightarrow> resolved d)"

text \<open>
  \<open>fetchBookInfo\<close> of \<open>api/google-books.js\<close>. The body of the answer is \<open>data.items\<close>:
  \<open>None\<close> when the field is missing.
\<close>

definition googleBooks_fetchBookInfo :: "('g, 'b, 'i) env \<Rightarrow> string \<Rightarrow> bool \<Rightarrow> book option async" where
  "googleBooks_fetchBookInfo e i useCache =
     tryCatch
       (await (if useCache then getCachedBookInfo i else resolved None) (\<lambda>cached.
          case cached of
            Some b \<Rightarrow> resolved (Some b)
          | None \<Rightarrow>
              await (fetch e (GoogleVolumes i) (\<lambda>t. googleVolumes e t i)) (\<lambda>response.
                if \<not> fst response then throw (Error ''Google Books API error'')
                else
                  await (json response) (\<lambda>items.
                    case items of
                      None \<Rightarrow> resolved None
                    | Some [] \<Rightarrow> resolved None
                    | Some (item # _) \<Rightarrow>
                        (let bk = parseGoogleBooksResponse e item i in
                         await (cacheBookInfo i bk) (\<lambda>_. resolved (Some bk)))))))
       (\<lambda>error. resolved None)"

text \<open>\<open>fetchFromBooksAPI\<close>, \<open>fetchFromISBNEndpoint\<close> and \<open>fetchBookInfo\<close> of \<open>api/open-library.js\<close>.\<close>

definition fetchFromBooksAPI :: "('g, 'b, 'i) env \<Rightarrow> string \<Rightarrow> book option async" where
  "fetchFromBooksAPI e i =
     tryCatch
       (await (fetch e (OpenLibraryBooks i) (\<lambda>t. openLibraryBooks e t i)) (\<lambda>response.
          if \<not> fst response then throw (Error ''Open Library API error'')
          else
            await (json response) (\<lambda>d.
              case d (''ISBN:'' @ i) of
                None \<Rightarrow> resolved None
              | Some raw \<Rightarrow> resolved (Some (parseOpenLibraryBooksResponse e raw i)))))
       (\<lambda>error. resolved None)"

definition fetchFromISBNEndpoint :: "('g, 'b, 'i) env \<Rightarrow> string \<Rightarrow> book option async" where
  "fetchFromISBNEndpoint e i =
     tryCatch
       (await (fetch e (OpenLibraryISBN i) (\<lambda>t. openLibraryISBN e t i)) (\<lambda>response.
          if \<not> fst response then resolved None
          else
            await (json response) (\<lambda>d.
              resolved (Some (parseOpenLibraryISBNResponse e d i)))))
       (\<lambda>error. resolved None)"

definition openLibrary_fetchBookInfo :: "('g, 'b, 'i) env \<Rightarrow> string \<Rightarrow> bool \<Rightarrow> book option async" where
  "openLibrary_fetchBookInfo e i useCache =
     tryCatch
       (await (if useCache then getCachedBookInfo i else resolved None) (\<lambda>cached.
          case cached of
            Some b \<Rightarrow> resolved (Some b)
          | None \<Rightarrow>
              await (fetchFromBooksAPI e i) (\<lambda>bookData.
                case bookData of
                  Some b \<Rightarrow> await (cacheBookInfo i b) (\<lambda>_. resolved (Some b))
                | None \<Rightarrow>
                    await (fetchFromISBNEndpoint e i) (\<lambda>isbnData.
                      case isbnData of
                        Some b \<Rightarrow> await (cacheBookInfo i b) (\<lambda>_. resolved (Some b))
                      | None \<Rightarrow> resolved None))))
       (\<lambda>error. resolved None)"

subsection \<open>The service worker\<close>

text \<open>
  \<open>handleFetchBookInfo\<close> answers \<open>{success: true, book}\<close> or
  \<open>{success: false, error, isbn}\<close>; \<open>handleGetDetectedBooks\<close> answers
  \<open>{success: true, books}\<close> or \<open>{success: false, error}\<close>.
\<close>

datatype bookInfoResult = BookFound book | BookError string string

definition handleFetchBookInfo :: "('g, 'b, 'i) env \<Rightarrow> string \<Rightarrow> bookInfoResult async" where
  "handleFetchBookInfo e i =
     tryCatch
       (await (googleBooks_fetchBookInfo e i True) (\<lambda>bookInfo.
          await (case bookInfo of
                   None \<Rightarrow> openLibrary_fetchBookInfo e i True
                 | Some b \<Rightarrow> resolved (Some b)) (\<lambda>bookInfo.
            case bookInfo of
              Some b \<Rightarrow> resolved (BookFound b)
            | None \<Rightarrow> resolved (BookError ''Book metadata not found'' i))))
       (\<lambda>error. resolved (BookError (message error) i))"

text \<open>The object that \<open>handleGetDetectedBooks\<close> returns for an ISBN whose lookup failed.\<close>

definition detailsUnavailable :: "string \<Rightarrow> book" where
  "detailsUnavailable i =
     \<lparr>bookIsbn = i, bookTitle = ''Details Unavailable'', bookAuthors = [], bookDescription = [],
      bookThumbnail = [], bookSource = ''none'', bookPublication = None\<rparr>"

text \<open>The function that \<open>handleGetDetectedBooks\<close> maps over the ISBNs of the tab.\<close>

definition detectedBook :: "('g, 'b, 'i) env \<Rightarrow> string \<Rightarrow> book async" where
  "detectedBook e i =
     await (handleFetchBookInfo e i) (\<lambda>result.
       case result of
         BookFound b \<Rightarrow> resolved b
       | BookError _ _ \<Rightarrow> resolved (detailsUnavailable i))"

datatype detectedBooksResult = DetectedBooks "book list" | DetectedError string

definition chromeTabsQuery :: "nat option async" where
  "chromeTabsQuery w = (tabsQuery w, w)"

definition tabISBNsGet :: "nat \<Rightarrow> string list option async" where
  "tabISBNsGet tabId w = (Inr (tabISBNs w tabId), w)"

text \<open>A tab id is a number or \<open>undefined\<close>; \<open>!tabId\<close> holds for \<open>undefined\<close> and for 0.\<close>

definition handleGetDetectedBooks :: "('g, 'b, 'i) env \<Rightarrow> nat option \<Rightarrow> detectedBooksResult async" where
  "handleGetDetectedBooks e tabId =
     tryCatch
       (await (if tabId = None \<or> tabId = Some 0 then chromeTabsQuery else resolved tabId) (\<lambda>tabId.
          case tabId of
            None \<Rightarrow> resolved (DetectedError ''No active tab found'')
          | Some n \<Rightarrow>
              if n = 0 then resolved (DetectedError ''No active tab found'')
              else
                await (tabISBNsGet n) (\<lambda>found.
                  await (promiseAll (map (detectedBook e)
                           (case found of None \<Rightarrow> [] | Some isbns \<Rightarrow> isbns))) (\<lambda>books.
                    resolved (DetectedBooks books)))))
       (\<lambda>error. resolved (DetectedError (message error)))"

subsection \<open>Notions used in the statements\<close>

text \<open>
  The primary provider fails: its request is rejected, or answered with an error status,
  or with a body that cannot be read, or with no items.
\<close>

definition primaryFails :: "'g list option reply \<Rightarrow> bool" where
  "primaryFails r =
     (case r of
        Rejected \<Rightarrow> True
      | Response ok body \<Rightarrow>
          \<not> ok \<or> (case body of None \<Rightarrow> True | Some None \<Rightarrow> True | Some (Some items) \<Rightarrow> items = []))"

text \<open>The entry that the persistent store holds for an ISBN.\<close>

definition storedEntry :: "world \<Rightarrow> string \<Rightarrow> entry option" where
  "storedEntry w i = (case bookMetadataCache w of None \<Rightarrow> None | Some c \<Rightarrow> c i)"

text \<open>
  The specification's shape of a stored entry, with the name of the time field left open: a
  record of exactly two fields, \<open>data\<close> holding a metadata object and the named field holding
  a number.
\<close>

definition entryShape :: "string \<Rightarrow> entry \<Rightarrow> bool" where
  "entryShape stamp e \<longleftrightarrow>
     length e = 2 \<and>
     (case map_of e ''data'' of Some (Data b) \<Rightarrow> True | _ \<Rightarrow> False) \<and>
     (case map_of e stamp of Some (Number t) \<Rightarrow> True | _ \<Rightarrow> False)"

text \<open>What \<open>getLocalStorage\<close> returns, and what \<open>getCachedBookInfo\<close> returns, as functions of the world.\<close>

definition readCache :: "world \<Rightarrow> (string \<rightharpoonup> entry)" where
  "readCache w =
     (if storageAvailable w then (case bookMetadataCache w of None \<Rightarrow> Map.empty | Some v \<Rightarrow> v)
      else Map.empty)"

definition cachedBook :: "string \<Rightarrow> world \<Rightarrow> book option" where
  "cachedBook i w =
     (case readCache w i of
        None \<Rightarrow> None
      | Some c \<Rightarrow> if expired (clock w) c then None else cachedData c)"

subsection \<open>An example\<close>

text \<open>
  A world with an empty cache and a tab that shows one ISBN; a network in which Google Books
  answers every request with an error status, the Open Library books endpoint knows one
  ISBN, and the Open Library ISBN endpoint cannot be reached.
\<close>

definition exampleBook :: "string \<Rightarrow> book" where
  "exampleBook i =
     \<lparr>bookIsbn = i, bookTitle = ''An Example'', bookAuthors = [''A. Writer''], bookDescription = [],
      bookThumbnail = [], bookSource = ''open-library'',
      bookPublication = Some \<lparr>publishedDate = ''1980'', publisher = ''A Press'', pageCount = 204,
        categories = [], language = []\<rparr>\<rparr>"

definition exampleEnv :: "(unit, unit, unit) env" where
  "exampleEnv =
     \<lparr>googleVolumes = (\<lambda>t i. Response False None),
      openLibraryBooks = (\<lambda>t i. Response True
         (Some (if i = ''0306406152'' then [''ISBN:0306406152'' \<mapsto> ()] else Map.empty))),
      openLibraryISBN = (\<lambda>t i. Rejected),
      latency = (\<lambda>t rq. 120),
      parseGoogleBooksResponse = (\<lambda>raw i. (exampleBook i)\<lparr>bookSource := ''google-books''\<rparr>),
      parseOpenLibraryBooksResponse = (\<lambda>raw i. exampleBook i),
      parseOpenLibraryISBNResponse = (\<lambda>raw i. exampleBook i)\<rparr>"

definition exampleWorld :: world where
  "exampleWorld =
     \<lparr>bookMetadataCache = None, storageAvailable = True, clock = 1000, requests = [],
      tabISBNs = [5 \<mapsto> [''9780306406157'']], tabsQuery = Inr (Some 5)\<rparr>"

section \<open>Properties of the ISBN utilities\<close>

subsection \<open>Code units\<close>

lemma code_Latin: "code (Latin c) = of_char c"
  by (simp add: code_def)

lemma code_char_of: "n < 256 \<Longrightarrow> code (Latin (char_of n)) = n"
  by (simp add: code_def take_bit_eq_mod)

lemma code_cases: "code u < 256 \<or> u = U039C \<or> u = U0178"
  by (cases u) (simp_all add: code_def)

lemma upperUnit_cases:
  obtains (letter) "(97 \<le> code u \<and> code u \<le> 122) \<or> (224 \<le> code u \<and> code u \<le> 254 \<and> code u \<noteq> 247)"
      "upperUnit u = [Latin (char_of (code u - 32))]"
    | (sharp_s) "code u = 223" "upperUnit u = [Latin (CHR ''S''), Latin (CHR ''S'')]"
    | (micro) "code u = 181" "upperUnit u = [U039C]"
    | (y_diaeresis) "code u = 255" "upperUnit u = [U0178]"
    | (same) "code u < 97 \<or> (122 < code u \<and> code u < 224 \<and> code u \<noteq> 223 \<and> code u \<noteq> 181)
               \<or> code u = 247 \<or> 255 < code u"
      "upperUnit u = [u]"
proof -
  consider "(97 \<le> code u \<and> code u \<le> 122) \<or> (224 \<le> code u \<and> code u \<le> 254 \<and> code u \<noteq> 247)"
    | "code u = 223" | "code u = 181" | "code u = 255"
    | "code u < 97 \<or> (122 < code u \<and> code u < 224 \<and> code u \<noteq> 223 \<and> code u \<noteq> 181)
               \<or> code u = 247 \<or> 255 < code u"
    by linarith
  then show thesis
  proof cases
    case 1 then show ?thesis by (intro letter) (simp_all add: upperUnit_def)
  next
    case 2 then show ?thesis by (intro sharp_s) (simp_all add: upperUnit_def)
  next
    case 3 then show ?thesis by (intro micro) (simp_all add: upperUnit_def)
  next
    case 4 then show ?thesis by (intro y_diaeresis) (simp_all add: upperUnit_def)
  next
    case 5 then show ?thesis by (intro same) (auto simp: upperUnit_def)
  qed
qed

lemma upperUnit_same:
  "code u < 97 \<or> (122 < code u \<and> code u < 224 \<and> code u \<noteq> 223 \<and> code u \<noteq> 181)
               \<or> code u = 247 \<or> 255 < code u \<Longrightarrow> upperUnit u = [u]"
  by (auto simp: upperUnit_def)

lemma upperUnit_fixed: "v \<in> set (upperUnit u) \<Longrightarrow> upperUnit v = [v]"
proof (cases u rule: upperUnit_cases)
  case letter
  assume "v \<in> set (upperUnit u)"
  with letter have v: "v = Latin (char_of (code u - 32))"
    by simp
  from letter(1) have "code u - 32 < 256"
    by linarith
  then have "code v = code u - 32"
    unfolding v by (rule code_char_of)
  with letter(1) show ?thesis
    by (intro upperUnit_same) linarith
next
  case sharp_s
  assume "v \<in> set (upperUnit u)"
  with sharp_s have "v = Latin (CHR ''S'')"
    by simp
  then show ?thesis
    by (intro upperUnit_same) (simp add: code_def)
next
  case micro
  assume "v \<in> set (upperUnit u)"
  with micro have "v = U039C"
    by simp
  then show ?thesis
    by (intro upperUnit_same) (simp add: code_def)
next
  case y_diaeresis
  assume "v \<in> set (upperUnit u)"
  with y_diaeresis have "v = U0178"
    by simp
  then show ?thesis
    by (intro upperUnit_same) (simp add: code_def)
next
  case same
  assume "v \<in> set (upperUnit u)"
  with same show ?thesis
    by simp
qed

lemma isSeparator_code: "isSeparator u \<Longrightarrow> code u \<in> {9, 10, 11, 12, 13, 32, 45, 160}"
  by (auto simp: isSeparator_def isWhiteSpace_def code_def)

lemma upperUnit_not_separator:
  assumes "\<not> isSeparator u" and "v \<in> set (upperUnit u)"
  shows "\<not> isSeparator v"
proof (cases u rule: upperUnit_cases)
  case letter
  with assms(2) have v: "v = Latin (char_of (code u - 32))"
    by simp
  from letter(1) have "code u - 32 < 256"
    by linarith
  then have "code v = code u - 32"
    unfolding v by (rule code_char_of)
  with letter(1) have "code v \<notin> {9, 10, 11, 12, 13, 32, 45, 160}"
    by auto
  then show ?thesis
    using isSeparator_code by blast
next
  case sharp_s
  with assms(2) have "v = Latin (CHR ''S'')"
    by simp
  then show ?thesis
    by (simp add: isSeparator_def isWhiteSpace_def code_def)
next
  case micro
  with assms(2) have "v = U039C"
    by simp
  then show ?thesis
    by (simp add: isSeparator_def isWhiteSpace_def code_def)
next
  case y_diaeresis
  with assms(2) have "v = U0178"
    by simp
  then show ?thesis
    by (simp add: isSeparator_def isWhiteSpace_def code_def)
next
  case same
  with assms show ?thesis
    by simp
qed

lemma isDigit_upperUnit: "isDigit u \<Longrightarrow> upperUnit u = [u]"
  by (rule upperUnit_same) (simp add: isDigit_def)

lemma isDigit_not_separator: "isDigit u \<Longrightarrow> \<not> isSeparator u"
  using isSeparator_code by (fastforce simp: isDigit_def)

subsection \<open>Normalisation\<close>

lemma toUpperCase_append: "toUpperCase (xs @ ys) = toUpperCase xs @ toUpperCase ys"
  by (simp add: toUpperCase_def)

lemma toUpperCase_fixed: "(\<And>c. c \<in> set p \<Longrightarrow> upperUnit c = [c]) \<Longrightarrow> toUpperCase p = p"
  by (induction p) (simp_all add: toUpperCase_def)

lemma set_toUpperCase: "v \<in> set (toUpperCase s) \<longleftrightarrow> (\<exists>u\<in>set s. v \<in> set (upperUnit u))"
  by (auto simp: toUpperCase_def)

lemma normalizeISBN_clean:
  assumes "c \<in> set (normalizeISBN s)"
  shows "\<not> isSeparator c \<and> upperUnit c = [c]"
proof -
  from assms obtain u where u: "u \<in> set s" "\<not> isSeparator u" "c \<in> set (upperUnit u)"
    by (auto simp: normalizeISBN_def set_toUpperCase)
  then show ?thesis
    using upperUnit_not_separator upperUnit_fixed by blast
qed

lemma filter_no_separator:
  "(\<And>c. c \<in> set s \<Longrightarrow> \<not> isSeparator c) \<Longrightarrow> filter (\<lambda>c. \<not> isSeparator c) s = s"
  by (induction s) auto

lemma normalizeISBN_fixed:
  assumes "\<And>c. c \<in> set p \<Longrightarrow> \<not> isSeparator c \<and> upperUnit c = [c]"
  shows "normalizeISBN p = p"
proof -
  have "filter (\<lambda>c. \<not> isSeparator c) p = p"
    using assms by (intro filter_no_separator) blast
  moreover have "toUpperCase p = p"
    using assms by (intro toUpperCase_fixed) blast
  ultimately show ?thesis
    by (simp add: normalizeISBN_def)
qed

lemma normalizeISBN_idem: "normalizeISBN (normalizeISBN s) = normalizeISBN s"
  by (rule normalizeISBN_fixed) (rule normalizeISBN_clean)

lemma normalizeISBN_digits: "\<forall>c\<in>set s. isDigit c \<Longrightarrow> normalizeISBN s = s"
  by (rule normalizeISBN_fixed) (simp add: isDigit_upperUnit isDigit_not_separator)

lemma normalizeISBN_append: "normalizeISBN (xs @ ys) = normalizeISBN xs @ normalizeISBN ys"
  by (simp add: normalizeISBN_def toUpperCase_def)

lemma normalizeISBN_hyphen: "normalizeISBN (str ''-'') = []"
  by (simp add: normalizeISBN_def toUpperCase_def isSeparator_def str_def)

lemma normalizeISBN_slice:
  assumes "\<And>c. c \<in> set n \<Longrightarrow> \<not> isSeparator c \<and> upperUnit c = [c]"
  shows "normalizeISBN (slice n a b) = slice n a b" and "normalizeISBN (drop a n) = drop a n"
proof -
  have "set (slice n a b) \<subseteq> set n"
    unfolding slice_def using set_take_subset set_drop_subset by fast
  with assms show "normalizeISBN (slice n a b) = slice n a b"
    by (intro normalizeISBN_fixed) blast
  have "set (drop a n) \<subseteq> set n"
    by (rule set_drop_subset)
  with assms show "normalizeISBN (drop a n) = drop a n"
    by (intro normalizeISBN_fixed) blast
qed

subsection \<open>The summing loop\<close>

lemma digitLoop_char:
  "digitLoop w s is acc =
     (if \<forall>i\<in>set is. isDigit (s ! i)
      then Some (acc + sum_list (map (\<lambda>i. digitValue (s ! i) * w i) is)) else None)"
  by (induction "is" arbitrary: acc) (auto simp: parseInt_def)

lemma sum_list_upt: "sum_list (map f [0..<n]) = (\<Sum>i<n. f i)"
  by (simp add: interv_sum_list_conv_sum_set_nat atLeast0LessThan)

subsection \<open>The ISBN-10 validator\<close>

lemma validateISBN10Checksum_digits:
  "validateISBN10Checksum s \<Longrightarrow> \<forall>i<9. isDigit (s ! i)"
  by (auto simp: validateISBN10Checksum_def digitLoop_char split: option.splits if_splits)

text \<open>
  Claim C5. For every string \<open>s\<close>, \<open>validateISBN10Checksum s\<close> is true exactly when \<open>s\<close>
  has length 10, each of the positions 0 to 8 holds a decimal digit, position 9 holds a
  decimal digit or the character \<open>X\<close>, and the sum of the digits at positions 0 to 8, each
  weighted by 10 minus its position, plus the value of position 9 (10 for \<open>X\<close>) is divisible
  by 11. Any other character at any position makes the validator return false.
\<close>

theorem validateISBN10Checksum_iff:
  "validateISBN10Checksum s \<longleftrightarrow>
     length s = 10 \<and> (\<forall>i<9. isDigit (s ! i)) \<and> (isDigit (s ! 9) \<or> s ! 9 = Latin (CHR ''X'')) \<and>
     ((\<Sum>i<9. digitValue (s ! i) * (10 - i))
        + (if s ! 9 = Latin (CHR ''X'') then 10 else digitValue (s ! 9))) mod 11 = 0"
  by (auto simp: validateISBN10Checksum_def digitLoop_char sum_list_upt parseInt_def weight10_def
      split: option.splits if_splits)

theorem validateISBN10Checksum_iff_witness:
  "validateISBN10Checksum (str ''043942089X'') \<and> length (str ''043942089X'') = 10 \<and>
     isDigit (str ''043942089X'' ! 8) \<and>
     ((\<Sum>i<9. digitValue (str ''043942089X'' ! i) * (10 - i))
        + (if str ''043942089X'' ! 9 = Latin (CHR ''X'') then 10
           else digitValue (str ''043942089X'' ! 9))) mod 11 = 0"
proof -
  have v: "validateISBN10Checksum (str ''043942089X'')"
    by code_simp
  from iffD1[OF validateISBN10Checksum_iff v]
  have len: "length (str ''043942089X'') = 10"
    and digits: "\<forall>i<9. isDigit (str ''043942089X'' ! i)"
    and total: "((\<Sum>i<9. digitValue (str ''043942089X'' ! i) * (10 - i))
        + (if str ''043942089X'' ! 9 = Latin (CHR ''X'') then 10
           else digitValue (str ''043942089X'' ! 9))) mod 11 = 0"
    by blast+
  from digits have "isDigit (str ''043942089X'' ! 8)"
    by (rule allE[where x = 8]) (rule mp, assumption, rule order.strict_iff_order[THEN iffD2], simp)
  with v len total show ?thesis
    by blast
qed

subsection \<open>The combined validator\<close>

lemma normalizeISBN_specNormalize: "normalizeISBN s = specNormalize s"
  by (induction s) (simp_all add: normalizeISBN_def toUpperCase_def isSeparator_def)

lemma isValidISBN_normalized:
  assumes "normalizeISBN s = s"
  shows "isValidISBN s \<longleftrightarrow>
     (length s = 10 \<and> validateISBN10Checksum s) \<or>
     (length s = 13 \<and> (take 3 s = str ''978'' \<or> take 3 s = str ''979'') \<and> validateISBN13Checksum s)"
proof -
  have len3: "length (str ''978'') = 3" "length (str ''979'') = 3"
    by (simp_all add: str_def)
  show ?thesis
    unfolding isValidISBN_def startsWith_def Let_def len3 assms by auto
qed

text \<open>
  Claim C4. For every input string, \<open>isValidISBN\<close> normalises it first: what it examines is
  the input without its white space and hyphens, upper-cased, which is the specification's
  normal form. With a normalised length of 10 the verdict is that of the ISBN-10 checksum;
  with a normalised length of 13 it is false unless the normalised string starts with
  \<open>978\<close> or \<open>979\<close>, and otherwise the verdict of the ISBN-13 checksum; with any other length
  it is false. Called with a string, \<open>isValidISBN\<close> returns a Boolean and raises nothing.
\<close>

theorem isValidISBN_cases:
  "normalizeISBN s = specNormalize s \<and>
   isValidISBN s =
     (if length (specNormalize s) = 10 then validateISBN10Checksum (specNormalize s)
      else if length (specNormalize s) = 13 then
        (take 3 (specNormalize s) = str ''978'' \<or> take 3 (specNormalize s) = str ''979'')
          \<and> validateISBN13Checksum (specNormalize s)
      else False) \<and>
   isValidISBN_call (JSString s) = Inr (isValidISBN s)"
proof -
  have len3: "length (str ''978'') = 3" "length (str ''979'') = 3"
    by (simp_all add: str_def)
  have "isValidISBN s =
     (if length (normalizeISBN s) = 10 then validateISBN10Checksum (normalizeISBN s)
      else if length (normalizeISBN s) = 13 then
        (take 3 (normalizeISBN s) = str ''978'' \<or> take 3 (normalizeISBN s) = str ''979'')
          \<and> validateISBN13Checksum (normalizeISBN s)
      else False)"
    unfolding isValidISBN_def startsWith_def Let_def len3 by meson
  then show ?thesis
    by (simp add: normalizeISBN_specNormalize isValidISBN_call_def)
qed

theorem isValidISBN_cases_witness:
  "isValidISBN (str ''0-306-40615-2'') \<and>
   isValidISBN (str ''978 0 306 40615 7'') \<and>
   isValidISBN (str ''043942089x'') \<and>
   \<not> isValidISBN (str ''1234567890128'') \<and>
   \<not> isValidISBN (str ''0306406150'') \<and>
   \<not> isValidISBN (str ''123'') \<and>
   normalizeISBN (str ''043-942 089x'') = str ''043942089X'' \<and>
   isValidISBN_call (JSString (str ''043942089x'')) = Inr True \<and>
   isValidISBN_call JSNull = Inl TypeError"
proof -
  have n1: "specNormalize (str ''0-306-40615-2'') = str ''0306406152''"
    and n2: "specNormalize (str ''978 0 306 40615 7'') = str ''9780306406157''"
    and n3: "specNormalize (str ''043942089x'') = str ''043942089X''"
    and n4: "specNormalize (str ''1234567890128'') = str ''1234567890128''"
    and n5: "specNormalize (str ''0306406150'') = str ''0306406150''"
    and n6: "specNormalize (str ''123'') = str ''123''"
    and n7: "specNormalize (str ''043-942 089x'') = str ''043942089X''"
    by code_simp+
  have v1: "validateISBN10Checksum (str ''0306406152'')"
    and v2: "validateISBN13Checksum (str ''9780306406157'')"
    and v3: "validateISBN10Checksum (str ''043942089X'')"
    and v5: "\<not> validateISBN10Checksum (str ''0306406150'')"
    by code_simp+
  have l10: "length (str ''0306406152'') = 10" "length (str ''043942089X'') = 10"
      "length (str ''0306406150'') = 10"
    and l13: "length (str ''9780306406157'') = 13" "length (str ''1234567890128'') = 13"
    and l3: "length (str ''123'') = 3"
    and p2: "take 3 (str ''9780306406157'') = str ''978''"
    and p4: "take 3 (str ''1234567890128'') \<noteq> str ''978''" "take 3 (str ''1234567890128'') \<noteq> str ''979''"
    by (simp_all add: str_def)
  note c1 = isValidISBN_cases[of "str ''0-306-40615-2''", unfolded n1]
  note c2 = isValidISBN_cases[of "str ''978 0 306 40615 7''", unfolded n2]
  note c3 = isValidISBN_cases[of "str ''043942089x''", unfolded n3]
  note c4 = isValidISBN_cases[of "str ''1234567890128''", unfolded n4]
  note c5 = isValidISBN_cases[of "str ''0306406150''", unfolded n5]
  note c6 = isValidISBN_cases[of "str ''123''", unfolded n6]
  note c7 = isValidISBN_cases[of "str ''043-942 089x''", unfolded n7]
  have a1: "isValidISBN (str ''0-306-40615-2'')"
    using c1 v1 l10 by simp
  have a2: "isValidISBN (str ''978 0 306 40615 7'')"
    using c2 v2 l13 p2 by simp
  have a3: "isValidISBN (str ''043942089x'')"
    using c3 v3 l10 by simp
  have a4: "\<not> isValidISBN (str ''1234567890128'')"
    using c4 l13 p4 by simp
  have a5: "\<not> isValidISBN (str ''0306406150'')"
    using c5 v5 l10 by simp
  have a6: "\<not> isValidISBN (str ''123'')"
    using c6 l3 by simp
  have a7: "normalizeISBN (str ''043-942 089x'') = str ''043942089X''"
    using c7 by blast
  have a8: "isValidISBN_call (JSString (str ''043942089x'')) = Inr True"
    using c3 a3 by simp
  have a9: "isValidISBN_call JSNull = Inl TypeError"
    by (simp add: isValidISBN_call_def)
  from a1 a2 a3 a4 a5 a6 a7 a8 a9 show ?thesis
    by blast
qed

subsection \<open>The ISBN-13 validator\<close>

lemma validateISBN13Checksum_iff:
  "validateISBN13Checksum s \<longleftrightarrow>
     length s = 13 \<and> (\<forall>i<13. isDigit (s ! i)) \<and>
     (\<Sum>i<13. digitValue (s ! i) * (if even i then 1 else 3)) mod 10 = 0"
  by (auto simp: validateISBN13Checksum_def digitLoop_char sum_list_upt weight13_def even_iff_mod_2_eq_zero
      split: option.splits if_splits)

text \<open>
  Claim C10. \<open>validateISBN13Checksum\<close> has no prefix rule: every string of 13 decimal
  digits whose alternating 1/3-weighted sum is divisible by 10 is accepted, whatever its first
  three digits. The \<open>978\<close>/\<open>979\<close> requirement lives in \<open>isValidISBN\<close> only, which
  rejects such a string when it starts with neither prefix: there the two functions disagree.
\<close>

theorem validateISBN13Checksum_no_prefix_rule:
  assumes "length s = 13" and "\<forall>c\<in>set s. isDigit c"
    and "(\<Sum>i<13. digitValue (s ! i) * (if even i then 1 else 3)) mod 10 = 0"
  shows "validateISBN13Checksum s \<and>
    (take 3 s \<noteq> str ''978'' \<and> take 3 s \<noteq> str ''979'' \<longrightarrow> \<not> isValidISBN s)"
proof -
  from assms(1,2) have "\<forall>i<13. isDigit (s ! i)"
    by simp
  with assms(1,3) have "validateISBN13Checksum s"
    by (simp add: validateISBN13Checksum_iff)
  moreover from assms(1,2) have "take 3 s \<noteq> str ''978'' \<and> take 3 s \<noteq> str ''979'' \<longrightarrow> \<not> isValidISBN s"
    by (simp add: isValidISBN_normalized normalizeISBN_digits)
  ultimately show ?thesis by blast
qed

theorem validateISBN13Checksum_no_prefix_rule_witness:
  "validateISBN13Checksum (str ''1234567890128'') \<and> \<not> isValidISBN (str ''1234567890128'')"
proof -
  have h1: "length (str ''1234567890128'') = 13"
    by (simp add: str_def)
  have h2: "\<forall>c\<in>set (str ''1234567890128''). isDigit c"
    by (simp add: str_def isDigit_def code_def)
  have h3: "(\<Sum>i<13. digitValue (str ''1234567890128'' ! i) * (if even i then 1 else 3)) mod 10 = 0"
  proof -
    have "(\<Sum>i<13. digitValue (str ''1234567890128'' ! i) * (if even i then 1 else 3))
        = sum_list (map (\<lambda>i. digitValue (str ''1234567890128'' ! i) * (if even i then 1 else 3)) [0..<13])"
      by (rule sum_list_upt[symmetric])
    also have "\<dots> = 100"
      by (simp add: upt_conv_Cons digitValue_def str_def code_def)
    finally show ?thesis by simp
  qed
  have h4: "take 3 (str ''1234567890128'') \<noteq> str ''978'' \<and> take 3 (str ''1234567890128'') \<noteq> str ''979''"
    by (simp add: str_def)
  from validateISBN13Checksum_no_prefix_rule[OF h1 h2 h3] h4 show ?thesis
    by blast
qed

subsection \<open>Conversion from ISBN-10 to ISBN-13\<close>

lemma digit_char:
  "d < 10 \<Longrightarrow> isDigit (Latin (''0123456789'' ! d)) \<and> digitValue (Latin (''0123456789'' ! d)) = d"
proof -
  assume "d < 10"
  then have "d = 0 \<or> d = 1 \<or> d = 2 \<or> d = 3 \<or> d = 4 \<or> d = 5 \<or> d = 6 \<or> d = 7 \<or> d = 8 \<or> d = 9"
    by arith
  then show ?thesis
    by (elim disjE) (simp_all add: isDigit_def digitValue_def code_def)
qed

lemma check_digit_closes: "((acc::nat) + (10 - acc mod 10) mod 10) mod 10 = 0"
proof -
  define m where "m = acc mod 10"
  have m: "m < 10"
    by (simp add: m_def)
  have "(acc + (10 - m) mod 10) mod 10 = (m + (10 - m) mod 10) mod 10"
    unfolding m_def by (rule mod_add_left_eq[symmetric])
  also have "\<dots> = 0"
    using m by (cases "m = 0") simp_all
  finally show ?thesis
    by (simp add: m_def)
qed

lemma base_digits:
  assumes "length n = 10" and "\<forall>i<9. isDigit (n ! i)" and "i < 12"
  shows "isDigit ((str ''978'' @ take 9 n) ! i)"
proof (cases "i < 3")
  case True
  then have "i = 0 \<or> i = 1 \<or> i = 2" by arith
  then show ?thesis by (elim disjE) (simp_all add: isDigit_def str_def code_def)
next
  case False
  with assms have "(str ''978'' @ take 9 n) ! i = n ! (i - 3)" and "i - 3 < 9"
    by (simp_all add: nth_append numeral_3_eq_3 str_def)
  with assms(2) show ?thesis by simp
qed

text \<open>
  Claim C6. For every input \<open>x\<close>, \<open>convertISBN10ToISBN13\<close> returns \<open>null\<close> unless the
  normalised form of \<open>x\<close> has length 10 and passes the ISBN-10 checksum. When it does, the
  result is a string of 13 characters: \<open>978\<close>, then the first nine characters of the
  normalised input, then the decimal digit \<open>(10 - (sum mod 10)) mod 10\<close>, where \<open>sum\<close> is
  the alternating 1/3-weighted digit sum of the first twelve characters; and the result
  passes \<open>validateISBN13Checksum\<close>.
\<close>

theorem convertISBN10ToISBN13_correct:
  "(\<not> (length (normalizeISBN x) = 10 \<and> validateISBN10Checksum (normalizeISBN x))
      \<longrightarrow> convertISBN10ToISBN13 x = None) \<and>
   (length (normalizeISBN x) = 10 \<and> validateISBN10Checksum (normalizeISBN x) \<longrightarrow>
      (\<exists>r. convertISBN10ToISBN13 x = Some r \<and> length r = 13 \<and>
           take 12 r = str ''978'' @ take 9 (normalizeISBN x) \<and>
           isDigit (r ! 12) \<and>
           digitValue (r ! 12) =
             (10 - (\<Sum>i<12. digitValue ((str ''978'' @ take 9 (normalizeISBN x)) ! i)
                       * (if even i then 1 else 3)) mod 10) mod 10 \<and>
           validateISBN13Checksum r))"
proof (intro conjI impI)
  assume "\<not> (length (normalizeISBN x) = 10 \<and> validateISBN10Checksum (normalizeISBN x))"
  then show "convertISBN10ToISBN13 x = None"
    by (auto simp: convertISBN10ToISBN13_def Let_def)
next
  define n where "n = normalizeISBN x"
  define base where "base = str ''978'' @ take 9 n"
  define total where "total = (\<Sum>i<12. digitValue (base ! i) * (if even i then 1 else 3))"
  define d where "d = (10 - total mod 10) mod 10"
  define r where "r = base @ [Latin (''0123456789'' ! d)]"
  assume "length (normalizeISBN x) = 10 \<and> validateISBN10Checksum (normalizeISBN x)"
  then have len: "length n = 10" and valid: "validateISBN10Checksum n"
    by (simp_all add: n_def)
  from valid have digits9: "\<forall>i<9. isDigit (n ! i)"
    by (rule validateISBN10Checksum_digits)
  have base_len: "length base = 12"
    using len by (simp add: base_def str_def)
  have base_digit: "isDigit (base ! i)" if "i < 12" for i
    unfolding base_def using len digits9 that by (rule base_digits)
  have loop: "digitLoop weight13 base [0..<12] 0 = Some total"
    using base_digit
    by (simp add: digitLoop_char sum_list_upt total_def weight13_def even_iff_mod_2_eq_zero)
  have sl: "slice n 0 9 = take 9 n"
    by (simp add: slice_def)
  have conv: "convertISBN10ToISBN13 x = Some r"
    unfolding convertISBN10ToISBN13_def Let_def n_def[symmetric] sl base_def[symmetric]
    using len valid loop by (simp add: r_def d_def)
  have "d < 10"
    by (simp add: d_def)
  then have dchar: "isDigit (Latin (''0123456789'' ! d))" "digitValue (Latin (''0123456789'' ! d)) = d"
    using digit_char by blast+
  have r_len: "length r = 13"
    by (simp add: r_def base_len)
  have r_take: "take 12 r = base"
    by (simp add: r_def base_len)
  have r_last: "r ! 12 = Latin (''0123456789'' ! d)"
    using base_len by (simp add: r_def nth_append)
  have r_nth: "r ! i = base ! i" if "i < 12" for i
    using that base_len by (simp add: r_def nth_append)
  have r_digit: "isDigit (r ! i)" if "i < 13" for i
  proof (cases "i < 12")
    case True
    then show ?thesis by (simp add: r_nth base_digit)
  next
    case False
    with that have "i = 12" by simp
    then show ?thesis by (simp add: r_last dchar)
  qed
  have "(\<Sum>i<13. digitValue (r ! i) * (if even i then 1 else 3)) = total + d"
  proof -
    have "(\<Sum>i<13. digitValue (r ! i) * (if even i then 1 else 3))
        = (\<Sum>i<12. digitValue (r ! i) * (if even i then 1 else 3)) + digitValue (r ! 12)"
      using sum.lessThan_Suc[of "\<lambda>i. digitValue (r ! i) * (if even i then 1 else 3)" 12]
      by simp
    also have "(\<Sum>i<12. digitValue (r ! i) * (if even i then 1 else 3)) = total"
      unfolding total_def by (rule sum.cong) (simp_all add: r_nth)
    finally show ?thesis
      by (simp add: r_last dchar)
  qed
  then have "validateISBN13Checksum r"
    using r_len r_digit by (simp add: validateISBN13Checksum_iff d_def check_digit_closes)
  with conv r_len r_take r_last dchar
  show "\<exists>r. convertISBN10ToISBN13 x = Some r \<and> length r = 13 \<and>
           take 12 r = str ''978'' @ take 9 (normalizeISBN x) \<and>
           isDigit (r ! 12) \<and>
           digitValue (r ! 12) =
             (10 - (\<Sum>i<12. digitValue ((str ''978'' @ take 9 (normalizeISBN x)) ! i)
                       * (if even i then 1 else 3)) mod 10) mod 10 \<and>
           validateISBN13Checksum r"
    by (simp add: d_def total_def base_def n_def)
qed

theorem convertISBN10ToISBN13_correct_witness:
  "convertISBN10ToISBN13 (str ''0-306-40615-2'') = Some (str ''9780306406157'') \<and>
   validateISBN13Checksum (str ''9780306406157'') \<and>
   convertISBN10ToISBN13 (str ''0306406150'') = None"
proof -
  have n: "normalizeISBN (str ''0-306-40615-2'') = str ''0306406152''"
    by code_simp
  have v: "validateISBN10Checksum (str ''0306406152'')"
    by code_simp
  have c: "convertISBN10ToISBN13 (str ''0-306-40615-2'') = Some (str ''9780306406157'')"
    by code_simp
  have hyp: "length (normalizeISBN (str ''0-306-40615-2'')) = 10 \<and>
      validateISBN10Checksum (normalizeISBN (str ''0-306-40615-2''))"
    by (simp add: n v) (simp add: str_def)
  from conjunct2[OF convertISBN10ToISBN13_correct[of "str ''0-306-40615-2''"], rule_format, OF hyp]
  obtain r where "convertISBN10ToISBN13 (str ''0-306-40615-2'') = Some r" and "validateISBN13Checksum r"
    by blast
  with c have valid13: "validateISBN13Checksum (str ''9780306406157'')"
    by simp
  have n2: "normalizeISBN (str ''0306406150'') = str ''0306406150''"
    by code_simp
  have "\<not> validateISBN10Checksum (str ''0306406150'')"
    by code_simp
  then have "\<not> (length (normalizeISBN (str ''0306406150'')) = 10 \<and>
      validateISBN10Checksum (normalizeISBN (str ''0306406150'')))"
    by (simp add: n2)
  from conjunct1[OF convertISBN10ToISBN13_correct[of "str ''0306406150''"], rule_format, OF this]
  have "convertISBN10ToISBN13 (str ''0306406150'') = None" .
  with c valid13 show ?thesis
    by blast
qed

subsection \<open>Formatting\<close>

lemma slice_then_drop: "a \<le> b \<Longrightarrow> slice n a b @ drop b n = drop a n"
proof -
  assume "a \<le> b"
  then have "drop (b - a) (drop a n) = drop b n"
    by simp
  moreover have "take (b - a) (drop a n) @ drop (b - a) (drop a n) = drop a n"
    by (rule append_take_drop_id)
  ultimately show ?thesis
    by (simp only: slice_def)
qed

lemma rejoin13:
  "slice n 0 3 @ slice n 3 4 @ slice n 4 7 @ slice n 7 12 @ drop 12 n = n"
proof -
  have "slice n 7 12 @ drop 12 n = drop 7 n"
    by (rule slice_then_drop) simp
  moreover have "slice n 4 7 @ drop 7 n = drop 4 n"
    by (rule slice_then_drop) simp
  moreover have "slice n 3 4 @ drop 4 n = drop 3 n"
    by (rule slice_then_drop) simp
  moreover have "slice n 0 3 @ drop 3 n = drop 0 n"
    by (rule slice_then_drop) simp
  ultimately show ?thesis
    by simp
qed

lemma rejoin10:
  "slice n 0 1 @ slice n 1 4 @ slice n 4 9 @ drop 9 n = n"
proof -
  have "slice n 4 9 @ drop 9 n = drop 4 n"
    by (rule slice_then_drop) simp
  moreover have "slice n 1 4 @ drop 4 n = drop 1 n"
    by (rule slice_then_drop) simp
  moreover have "slice n 0 1 @ drop 1 n = drop 0 n"
    by (rule slice_then_drop) simp
  ultimately show ?thesis
    by simp
qed

text \<open>
  Claim C9. For every string \<open>s\<close> whose normalised form has length 10 or 13, formatting the
  normalised form and normalising again gives the normalised form back:
  \<open>normalizeISBN (formatISBN (normalizeISBN s)) = normalizeISBN s\<close>. For every string whose
  normalised form has another length, \<open>formatISBN\<close> returns its input itself, not the
  normalised form. The strings are arbitrary: letters with and without an upper-case form of
  one code unit are among them, as in \<open>formatISBN\<close> of U+00DF followed by \<open>12345678\<close>, which
  is \<open>S-S12-34567-8\<close>.
\<close>

theorem formatISBN_roundtrip:
  "(length (normalizeISBN s) = 10 \<or> length (normalizeISBN s) = 13 \<longrightarrow>
      normalizeISBN (formatISBN (normalizeISBN s)) = normalizeISBN s) \<and>
   (length (normalizeISBN s) \<noteq> 10 \<and> length (normalizeISBN s) \<noteq> 13 \<longrightarrow> formatISBN s = s)"
proof (intro conjI impI)
  define n where "n = normalizeISBN s"
  have fixed: "normalizeISBN n = n"
    by (simp add: n_def normalizeISBN_idem)
  have clean: "\<not> isSeparator c \<and> upperUnit c = [c]" if "c \<in> set n" for c
    using that unfolding n_def by (rule normalizeISBN_clean)
  assume "length (normalizeISBN s) = 10 \<or> length (normalizeISBN s) = 13"
  then consider (ten) "length n = 10" | (thirteen) "length n = 13"
    unfolding n_def by blast
  then have "normalizeISBN (formatISBN n) = n"
  proof cases
    case ten
    then have "formatISBN n = slice n 0 1 @ str ''-'' @ slice n 1 4 @ str ''-'' @ slice n 4 9
        @ str ''-'' @ drop 9 n"
      unfolding formatISBN_def fixed Let_def by simp
    then have "normalizeISBN (formatISBN n) = slice n 0 1 @ slice n 1 4 @ slice n 4 9 @ drop 9 n"
      by (simp only: normalizeISBN_append normalizeISBN_hyphen normalizeISBN_slice[OF clean]
          append_Nil)
    then show ?thesis
      by (simp only: rejoin10)
  next
    case thirteen
    then have "formatISBN n = slice n 0 3 @ str ''-'' @ slice n 3 4 @ str ''-'' @ slice n 4 7
        @ str ''-'' @ slice n 7 12 @ str ''-'' @ drop 12 n"
      unfolding formatISBN_def fixed Let_def by simp
    then have "normalizeISBN (formatISBN n)
        = slice n 0 3 @ slice n 3 4 @ slice n 4 7 @ slice n 7 12 @ drop 12 n"
      by (simp only: normalizeISBN_append normalizeISBN_hyphen normalizeISBN_slice[OF clean]
          append_Nil)
    then show ?thesis
      by (simp only: rejoin13)
  qed
  then show "normalizeISBN (formatISBN (normalizeISBN s)) = normalizeISBN s"
    by (simp add: n_def)
next
  assume "length (normalizeISBN s) \<noteq> 10 \<and> length (normalizeISBN s) \<noteq> 13"
  then show "formatISBN s = s"
    by (simp add: formatISBN_def Let_def)
qed

theorem formatISBN_roundtrip_witness:
  "normalizeISBN (formatISBN (normalizeISBN (str ''978 0 306 40615 7''))) = str ''9780306406157'' \<and>
   normalizeISBN (Latin (CHR 0xDF) # str ''12345678'') = str ''SS12345678'' \<and>
   formatISBN (Latin (CHR 0xDF) # str ''12345678'') = str ''S-S12-34567-8'' \<and>
   normalizeISBN (formatISBN (normalizeISBN (Latin (CHR 0xDF) # str ''12345678''))) = str ''SS12345678'' \<and>
   formatISBN (Latin (CHR 0xE9) # str ''1 2-3'') = Latin (CHR 0xE9) # str ''1 2-3''"
proof -
  have n: "normalizeISBN (str ''978 0 306 40615 7'') = str ''9780306406157''"
    by code_simp
  have "length (normalizeISBN (str ''978 0 306 40615 7'')) = 10 \<or>
      length (normalizeISBN (str ''978 0 306 40615 7'')) = 13"
    unfolding n by (simp add: str_def)
  from conjunct1[OF formatISBN_roundtrip[of "str ''978 0 306 40615 7''"], rule_format, OF this]
  have a: "normalizeISBN (formatISBN (normalizeISBN (str ''978 0 306 40615 7''))) = str ''9780306406157''"
    by (simp only: n)
  have m: "normalizeISBN (Latin (CHR 0xDF) # str ''12345678'') = str ''SS12345678''"
    by code_simp
  have f: "formatISBN (Latin (CHR 0xDF) # str ''12345678'') = str ''S-S12-34567-8''"
    by code_simp
  have "length (normalizeISBN (Latin (CHR 0xDF) # str ''12345678'')) = 10 \<or>
      length (normalizeISBN (Latin (CHR 0xDF) # str ''12345678'')) = 13"
    unfolding m by (simp add: str_def)
  from conjunct1[OF formatISBN_roundtrip[of "Latin (CHR 0xDF) # str ''12345678''"], rule_format, OF this]
  have b: "normalizeISBN (formatISBN (normalizeISBN (Latin (CHR 0xDF) # str ''12345678''))) = str ''SS12345678''"
    by (simp only: m)
  have k: "normalizeISBN (Latin (CHR 0xE9) # str ''1 2-3'') = Latin (CHR 0xC9) # str ''123''"
    by code_simp
  have "length (normalizeISBN (Latin (CHR 0xE9) # str ''1 2-3'')) \<noteq> 10 \<and>
      length (normalizeISBN (Latin (CHR 0xE9) # str ''1 2-3'')) \<noteq> 13"
    unfolding k by (simp add: str_def)
  from conjunct2[OF formatISBN_roundtrip[of "Latin (CHR 0xE9) # str ''1 2-3''"], rule_format, OF this]
    a m f b
  show ?thesis
    by blast
qed

section \<open>Properties of the extraction\<close>

lemma canonicalize_code:
  "canonicalize c = c \<or> (65 \<le> code (canonicalize c) \<and> code (canonicalize c) \<noteq> 160)"
proof (cases c rule: upperUnit_cases)
  case letter
  from letter(1) have "code c - 32 < 256"
    by linarith
  then have cu: "code (Latin (char_of (code c - 32))) = code c - 32"
    by (rule code_char_of)
  show ?thesis
  proof (cases "128 \<le> code c \<and> code c - 32 < 128")
    case True
    with cu have "128 \<le> code c \<and> code (Latin (char_of (code c - 32))) < 128"
      by simp
    with letter(2) show ?thesis
      by (simp add: canonicalize_def)
  next
    case False
    with cu have "\<not> (128 \<le> code c \<and> code (Latin (char_of (code c - 32))) < 128)"
      by simp
    with letter(2) have "canonicalize c = Latin (char_of (code c - 32))"
      by (auto simp: canonicalize_def)
    with letter(1) cu show ?thesis
      by auto
  qed
next
  case sharp_s
  then show ?thesis by (simp add: canonicalize_def)
next
  case micro
  then show ?thesis by (simp add: canonicalize_def code_def)
next
  case y_diaeresis
  then show ?thesis by (simp add: canonicalize_def code_def)
next
  case same
  then show ?thesis by (simp add: canonicalize_def)
qed

lemma canonicalize_class:
  assumes "isDigit a \<or> isSeparator a" and "canonicalize c = canonicalize a"
  shows "c = a"
proof -
  from assms(1) have a: "code a < 65 \<or> code a = 160"
    using isSeparator_code[of a] by (auto simp: isDigit_def)
  then have "upperUnit a = [a]"
    by (intro upperUnit_same) auto
  then have "canonicalize a = a"
    by (simp add: canonicalize_def)
  with assms(2) canonicalize_code[of c] a show ?thesis
    by auto
qed

lemma remdups_drop_seen: "x \<in> set zs \<Longrightarrow> remdups (ys @ x # zs) = remdups (ys @ zs)"
  by (induction ys) auto

lemma distinct_setAdd: "distinct found \<Longrightarrow> distinct (setAdd found x)"
  by (simp add: setAdd_def)

lemma foldl_setAdd:
  "distinct found \<Longrightarrow> foldl setAdd found xs = firstOccurrences (found @ xs)"
proof (induction xs arbitrary: found)
  case Nil
  then show ?case
    by (simp add: firstOccurrences_def distinct_remdups_id)
next
  case (Cons x xs)
  have "foldl setAdd found (x # xs) = foldl setAdd (setAdd found x) xs"
    by simp
  also have "\<dots> = firstOccurrences (setAdd found x @ xs)"
    using Cons.prems by (intro Cons.IH distinct_setAdd)
  also have "\<dots> = firstOccurrences (found @ x # xs)"
  proof (cases "x \<in> set found")
    case True
    then have "remdups (rev xs @ x # rev found) = remdups (rev xs @ rev found)"
      by (intro remdups_drop_seen) simp
    with True show ?thesis
      by (simp add: firstOccurrences_def setAdd_def)
  next
    case False
    then show ?thesis
      by (simp add: setAdd_def)
  qed
  finally show ?case .
qed

lemma collectISBNs_foldl:
  "collectISBNs lbl n found ms
     = foldl setAdd found (accepted n (map (\<lambda>m. normalizeISBN (replaceFirst lbl m)) ms))"
  by (induction ms arbitrary: found) (simp_all add: accepted_def Let_def)

lemma extractISBNs_firstOccurrences:
  "extractISBNs text =
     firstOccurrences (accepted 13 (candidates ISBN13 labelISBN13 text)
                        @ accepted 10 (candidates ISBN10 labelISBN10 text))"
proof -
  define a13 where "a13 = accepted 13 (candidates ISBN13 labelISBN13 text)"
  define a10 where "a10 = accepted 10 (candidates ISBN10 labelISBN10 text)"
  have "extractISBNs text = foldl setAdd (foldl setAdd [] a13) a10"
    by (simp add: extractISBNs_def Let_def collectISBNs_foldl candidates_def a13_def a10_def)
  also have "\<dots> = foldl setAdd [] (a13 @ a10)"
    by simp
  also have "\<dots> = firstOccurrences ([] @ a13 @ a10)"
    by (rule foldl_setAdd) simp
  finally show ?thesis
    by (simp add: a13_def a10_def)
qed

lemma set_firstOccurrences: "set (firstOccurrences xs) = set xs"
  by (simp add: firstOccurrences_def)

lemma distinct_firstOccurrences: "distinct (firstOccurrences xs)"
  by (simp add: firstOccurrences_def)

lemma extractISBNs_member:
  "e \<in> set (extractISBNs text) \<longleftrightarrow>
     (e \<in> set (candidates ISBN13 labelISBN13 text) \<and> length e = 13 \<and> isValidISBN e) \<or>
     (e \<in> set (candidates ISBN10 labelISBN10 text) \<and> length e = 10 \<and> isValidISBN e)"
  by (auto simp: extractISBNs_firstOccurrences set_firstOccurrences accepted_def)

lemma candidates_normalized: "e \<in> set (candidates pat lbl text) \<Longrightarrow> normalizeISBN e = e"
  by (auto simp: candidates_def normalizeISBN_idem)

text \<open>
  Claim C3. For every input text, every element of \<open>extractISBNs text\<close> is normalised and
  passes \<open>isValidISBN\<close> (so it has 13 characters and a valid ISBN-13 checksum, or 10 and a
  valid ISBN-10 checksum); no element occurs twice; the result lists the accepted candidates
  of the ISBN-13 scan followed by those of the ISBN-10 scan, each value at its first
  occurrence; a text in which neither pattern matches gives the empty list; and a candidate of
  either scan that fails the validation is not in the result.
\<close>

theorem extractISBNs_correct:
  "(\<forall>e\<in>set (extractISBNs text). normalizeISBN e = e \<and> isValidISBN e \<and>
        ((length e = 13 \<and> validateISBN13Checksum e) \<or> (length e = 10 \<and> validateISBN10Checksum e))) \<and>
   distinct (extractISBNs text) \<and>
   extractISBNs text =
     firstOccurrences (accepted 13 (candidates ISBN13 labelISBN13 text)
                        @ accepted 10 (candidates ISBN10 labelISBN10 text)) \<and>
   (matchAll ISBN13 text = [] \<and> matchAll ISBN10 text = [] \<longrightarrow> extractISBNs text = []) \<and>
   (\<forall>c\<in>set (candidates ISBN13 labelISBN13 text) \<union> set (candidates ISBN10 labelISBN10 text).
        \<not> isValidISBN c \<longrightarrow> c \<notin> set (extractISBNs text))"
proof (intro conjI ballI impI)
  fix e
  assume e: "e \<in> set (extractISBNs text)"
  then have norm: "normalizeISBN e = e"
    using candidates_normalized by (auto simp: extractISBNs_member)
  from e have valid: "isValidISBN e" and len: "length e = 13 \<or> length e = 10"
    by (auto simp: extractISBNs_member)
  show "normalizeISBN e = e" by (rule norm)
  show "isValidISBN e" by (rule valid)
  from valid len norm
  show "(length e = 13 \<and> validateISBN13Checksum e) \<or> (length e = 10 \<and> validateISBN10Checksum e)"
    by (auto simp: isValidISBN_normalized)
next
  show "distinct (extractISBNs text)"
    by (simp add: extractISBNs_firstOccurrences distinct_firstOccurrences)
next
  show "extractISBNs text =
     firstOccurrences (accepted 13 (candidates ISBN13 labelISBN13 text)
                        @ accepted 10 (candidates ISBN10 labelISBN10 text))"
    by (rule extractISBNs_firstOccurrences)
next
  assume "matchAll ISBN13 text = [] \<and> matchAll ISBN10 text = []"
  then show "extractISBNs text = []"
    by (simp add: extractISBNs_def)
next
  fix c
  assume "\<not> isValidISBN c"
  then show "c \<notin> set (extractISBNs text)"
    by (simp add: extractISBNs_member)
qed

theorem extractISBNs_correct_witness:
  "extractISBNs (str ''Books: 9780134685991 and 0306406152'')
     = [str ''9780134685991'', str ''0306406152''] \<and>
   isValidISBN (str ''9780134685991'') \<and> normalizeISBN (str ''0306406152'') = str ''0306406152'' \<and>
   distinct (extractISBNs (str ''Books: 9780134685991 and 0306406152'')) \<and>
   extractISBNs (str ''no digits'') = [] \<and>
   str ''1234567890'' \<notin> set (extractISBNs (str ''No ISBNs here: 1234567890'')) \<and>
   extractISBNs (str ''isbn-10: 0-439-42089-x, ISBN 978 0 306 40615 7'')
     = [str ''9780306406157'', str ''043942089X'']"
proof -
  note thm1 = extractISBNs_correct[of "str ''Books: 9780134685991 and 0306406152''"]
  note thm2 = extractISBNs_correct[of "str ''no digits''"]
  note thm3 = extractISBNs_correct[of "str ''No ISBNs here: 1234567890''"]
  have ev: "extractISBNs (str ''Books: 9780134685991 and 0306406152'')
      = [str ''9780134685991'', str ''0306406152'']"
    by code_simp
  from thm1 have all:
    "\<forall>e\<in>set (extractISBNs (str ''Books: 9780134685991 and 0306406152'')).
        normalizeISBN e = e \<and> isValidISBN e"
    and dist: "distinct (extractISBNs (str ''Books: 9780134685991 and 0306406152''))"
    by blast+
  from all have a: "isValidISBN (str ''9780134685991'')"
    and b: "normalizeISBN (str ''0306406152'') = str ''0306406152''"
    unfolding ev by simp_all
  have "matchAll ISBN13 (str ''no digits'') = [] \<and> matchAll ISBN10 (str ''no digits'') = []"
    by code_simp
  with thm2 have none: "extractISBNs (str ''no digits'') = []"
    by blast
  have cand: "str ''1234567890'' \<in> set (candidates ISBN13 labelISBN13 (str ''No ISBNs here: 1234567890''))
      \<union> set (candidates ISBN10 labelISBN10 (str ''No ISBNs here: 1234567890''))"
    by code_simp
  have bad: "\<not> isValidISBN (str ''1234567890'')"
    by code_simp
  from thm3 cand bad
  have absent: "str ''1234567890'' \<notin> set (extractISBNs (str ''No ISBNs here: 1234567890''))"
    by blast
  have labelled: "extractISBNs (str ''isbn-10: 0-439-42089-x, ISBN 978 0 306 40615 7'')
      = [str ''9780306406157'', str ''043942089X'']"
    by code_simp
  from ev a b dist none absent labelled show ?thesis
    by blast
qed

section \<open>Properties of the cache and the provider chain\<close>

subsection \<open>What the functions compute\<close>

lemma getLocalStorage_run: "getLocalStorage Map.empty w = (Inr (readCache w), w)"
  by (simp add: getLocalStorage_def tryCatch_def await_def chromeStorageLocalGet_def resolved_def
      readCache_def split: option.splits)

lemma getCachedBookInfo_run: "getCachedBookInfo i w = (Inr (cachedBook i w), w)"
  by (simp add: getCachedBookInfo_def tryCatch_def await_def getLocalStorage_run dateNow_def
      resolved_def cachedBook_def split: option.splits)

lemma setLocalStorage_run:
  "setLocalStorage v w =
     (if storageAvailable w then (Inr (), w\<lparr>bookMetadataCache := Some v\<rparr>)
      else (Inl (Error ''storage unavailable''), w))"
  by (simp add: setLocalStorage_def tryCatch_def chromeStorageLocalSet_def throw_def)

lemma cacheBookInfo_run:
  "cacheBookInfo i b w =
     (Inr (),
      if storageAvailable w
      then w\<lparr>bookMetadataCache :=
               Some ((readCache w)(i \<mapsto> [(''data'', Data b), (''timestamp'', Number (clock w))]))\<rparr>
      else w)"
  by (simp add: cacheBookInfo_def tryCatch_def await_def getLocalStorage_run dateNow_def
      setLocalStorage_run resolved_def)

text \<open>A write that the store rejects is logged and dropped: the world stays as it was.\<close>

lemma cacheBookInfo_store_unavailable:
  "\<not> storageAvailable w \<Longrightarrow> cacheBookInfo i b w = (Inr (), w)"
  by (simp add: cacheBookInfo_run)

lemma googleBooks_fetchBookInfo_run:
  "googleBooks_fetchBookInfo e i True w =
     (case cachedBook i w of
        Some b \<Rightarrow> (Inr (Some b), w)
      | None \<Rightarrow>
          (case googleVolumes e (clock w) i of
             Response True (Some (Some (item # rest))) \<Rightarrow>
               (Inr (Some (parseGoogleBooksResponse e item i)),
                snd (cacheBookInfo i (parseGoogleBooksResponse e item i) (sent e (GoogleVolumes i) w)))
           | _ \<Rightarrow> (Inr None, sent e (GoogleVolumes i) w)))"
  by (simp add: googleBooks_fetchBookInfo_def tryCatch_def await_def getCachedBookInfo_run fetch_def
      json_def throw_def resolved_def cacheBookInfo_run Let_def
      split: option.splits reply.splits list.splits bool.splits)

lemma fetchFromBooksAPI_run:
  "fetchFromBooksAPI e i w =
     (Inr (case openLibraryBooks e (clock w) i of
             Response True (Some d) \<Rightarrow>
               map_option (\<lambda>raw. parseOpenLibraryBooksResponse e raw i) (d (''ISBN:'' @ i))
           | _ \<Rightarrow> None),
      sent e (OpenLibraryBooks i) w)"
  by (simp add: fetchFromBooksAPI_def tryCatch_def await_def fetch_def json_def throw_def resolved_def
      split: option.splits reply.splits bool.splits)

lemma fetchFromISBNEndpoint_run:
  "fetchFromISBNEndpoint e i w =
     (Inr (case openLibraryISBN e (clock w) i of
             Response True (Some d) \<Rightarrow> Some (parseOpenLibraryISBNResponse e d i)
           | _ \<Rightarrow> None),
      sent e (OpenLibraryISBN i) w)"
  by (simp add: fetchFromISBNEndpoint_def tryCatch_def await_def fetch_def json_def throw_def
      resolved_def split: option.splits reply.splits bool.splits)

lemma openLibrary_fetchBookInfo_run:
  "openLibrary_fetchBookInfo e i True w =
     (case cachedBook i w of
        Some b \<Rightarrow> (Inr (Some b), w)
      | None \<Rightarrow>
          (case fst (fetchFromBooksAPI e i w) of
             Inr (Some b) \<Rightarrow> (Inr (Some b), snd (cacheBookInfo i b (sent e (OpenLibraryBooks i) w)))
           | _ \<Rightarrow>
               (case fst (fetchFromISBNEndpoint e i (sent e (OpenLibraryBooks i) w)) of
                  Inr (Some b) \<Rightarrow>
                    (Inr (Some b),
                     snd (cacheBookInfo i b
                            (sent e (OpenLibraryISBN i) (sent e (OpenLibraryBooks i) w))))
                | _ \<Rightarrow> (Inr None, sent e (OpenLibraryISBN i) (sent e (OpenLibraryBooks i) w)))))"
  by (simp add: openLibrary_fetchBookInfo_def tryCatch_def await_def getCachedBookInfo_run
      fetchFromBooksAPI_run fetchFromISBNEndpoint_run resolved_def cacheBookInfo_run
      split: option.splits)

lemma googleBooks_fetchBookInfo_resolves:
  "\<exists>r w'. googleBooks_fetchBookInfo e i True w = (Inr r, w')"
  by (simp add: googleBooks_fetchBookInfo_run split: option.splits reply.splits list.splits bool.splits)

lemma openLibrary_fetchBookInfo_resolves:
  "\<exists>r w'. openLibrary_fetchBookInfo e i True w = (Inr r, w')"
  by (simp add: openLibrary_fetchBookInfo_run split: option.splits sum.splits)

lemma handleFetchBookInfo_run:
  "handleFetchBookInfo e i w =
     (case googleBooks_fetchBookInfo e i True w of
        (Inr (Some b), w1) \<Rightarrow> (Inr (BookFound b), w1)
      | (_, w1) \<Rightarrow>
          (case openLibrary_fetchBookInfo e i True w1 of
             (Inr (Some b), w2) \<Rightarrow> (Inr (BookFound b), w2)
           | (_, w2) \<Rightarrow> (Inr (BookError ''Book metadata not found'' i), w2)))"
proof -
  obtain r1 w1 where g: "googleBooks_fetchBookInfo e i True w = (Inr r1, w1)"
    using googleBooks_fetchBookInfo_resolves by blast
  obtain r2 w2 where ol: "openLibrary_fetchBookInfo e i True w1 = (Inr r2, w2)"
    using openLibrary_fetchBookInfo_resolves by blast
  show ?thesis
    by (cases r1; cases r2)
      (simp_all add: handleFetchBookInfo_def tryCatch_def await_def resolved_def g ol)
qed

lemma handleFetchBookInfo_resolves:
  "\<exists>r w'. handleFetchBookInfo e i w = (Inr r, w') \<and>
      ((\<exists>b. r = BookFound b) \<or> r = BookError ''Book metadata not found'' i)"
proof -
  obtain r1 w1 where g: "googleBooks_fetchBookInfo e i True w = (Inr r1, w1)"
    using googleBooks_fetchBookInfo_resolves by blast
  obtain r2 w2 where ol: "openLibrary_fetchBookInfo e i True w1 = (Inr r2, w2)"
    using openLibrary_fetchBookInfo_resolves by blast
  show ?thesis
    by (cases r1; cases r2) (simp_all add: handleFetchBookInfo_run g ol)
qed

lemma detectedBook_run:
  "detectedBook e i w =
     (case handleFetchBookInfo e i w of
        (Inr (BookFound b), w') \<Rightarrow> (Inr b, w')
      | (_, w') \<Rightarrow> (Inr (detailsUnavailable i), w'))"
proof -
  obtain r w' where h: "handleFetchBookInfo e i w = (Inr r, w')"
    using handleFetchBookInfo_resolves by blast
  show ?thesis
    by (cases r) (simp_all add: detectedBook_def await_def resolved_def h)
qed

subsection \<open>Requests and the cache in the course of a lookup\<close>

lemma readCache_sent: "readCache (sent e rq w) = readCache w"
  by (simp add: readCache_def sent_def)

lemma clock_sent: "clock w \<le> clock (sent e rq w)"
  by (simp add: sent_def)

lemma requests_sent: "requests (sent e rq w) = requests w @ [rq]"
  by (simp add: sent_def)

lemma requests_cacheBookInfo: "requests (snd (cacheBookInfo i b w)) = requests w"
  by (simp add: cacheBookInfo_run)

lemma cachedBook_later:
  assumes "cachedBook i w = None" and "readCache w' = readCache w" and "clock w \<le> clock w'"
  shows "cachedBook i w' = None"
proof (cases "readCache w i")
  case None
  with assms(2) show ?thesis
    by (simp add: cachedBook_def)
next
  case (Some c)
  show ?thesis
  proof (cases "cachedData c")
    case None
    with Some assms(2) show ?thesis
      by (simp add: cachedBook_def)
  next
    case (Some b)
    with \<open>readCache w i = Some c\<close> assms(1) have "expired (clock w) c"
      by (simp add: cachedBook_def split: if_splits)
    with assms(3) have "expired (clock w') c"
      by (auto simp: expired_def split: option.splits field.splits)
    with \<open>readCache w i = Some c\<close> assms(2) show ?thesis
      by (simp add: cachedBook_def)
  qed
qed

lemma googleBooks_miss:
  assumes "cachedBook i w = None" and "primaryFails (googleVolumes e (clock w) i)"
  shows "googleBooks_fetchBookInfo e i True w = (Inr None, sent e (GoogleVolumes i) w)"
  using assms
  by (auto simp: googleBooks_fetchBookInfo_run primaryFails_def
      split: option.splits reply.splits list.splits bool.splits)

lemma googleBooks_requests:
  assumes "cachedBook i w = None"
  shows "requests (snd (googleBooks_fetchBookInfo e i True w)) = requests w @ [GoogleVolumes i]"
  using assms
  by (simp add: googleBooks_fetchBookInfo_run requests_cacheBookInfo requests_sent
      split: option.splits reply.splits list.splits bool.splits)

lemma googleBooks_None:
  assumes "googleBooks_fetchBookInfo e i True w = (Inr None, w1)"
  shows "cachedBook i w = None \<and> w1 = sent e (GoogleVolumes i) w"
  using assms
  by (simp add: googleBooks_fetchBookInfo_run
      split: option.splits reply.splits list.splits bool.splits)

lemma openLibrary_requests:
  "\<exists>rest. requests (snd (openLibrary_fetchBookInfo e i True w)) = requests w @ rest \<and>
      (cachedBook i w = None \<longrightarrow> (\<exists>more. rest = OpenLibraryBooks i # more))"
  by (simp add: openLibrary_fetchBookInfo_run fetchFromBooksAPI_run fetchFromISBNEndpoint_run
      requests_cacheBookInfo requests_sent split: option.splits sum.splits)

lemma openLibrary_None:
  assumes "openLibrary_fetchBookInfo e i True w = (Inr None, w2)"
  shows "w2 = sent e (OpenLibraryISBN i) (sent e (OpenLibraryBooks i) w)"
  using assms
  by (simp add: openLibrary_fetchBookInfo_run split: option.splits sum.splits)

lemma handleFetchBookInfo_requests:
  assumes "cachedBook i w = None"
  shows "\<exists>rest. requests (snd (handleFetchBookInfo e i w)) = requests w @ GoogleVolumes i # rest \<and>
      (primaryFails (googleVolumes e (clock w) i) \<longrightarrow> (\<exists>more. rest = OpenLibraryBooks i # more))"
proof -
  obtain r1 w1 where g: "googleBooks_fetchBookInfo e i True w = (Inr r1, w1)"
    using googleBooks_fetchBookInfo_resolves by blast
  have rq1: "requests w1 = requests w @ [GoogleVolumes i]"
    using googleBooks_requests[OF assms, of e] g by simp
  show ?thesis
  proof (cases r1)
    case (Some b)
    with g have "handleFetchBookInfo e i w = (Inr (BookFound b), w1)"
      by (simp add: handleFetchBookInfo_run)
    moreover have "\<not> primaryFails (googleVolumes e (clock w) i)"
    proof
      assume "primaryFails (googleVolumes e (clock w) i)"
      with assms have "googleBooks_fetchBookInfo e i True w = (Inr None, sent e (GoogleVolumes i) w)"
        by (rule googleBooks_miss)
      with g Some show False
        by simp
    qed
    ultimately show ?thesis
      using rq1 by simp
  next
    case None
    with g have w1: "w1 = sent e (GoogleVolumes i) w"
      using googleBooks_None by blast
    have "cachedBook i w1 = None"
      using assms unfolding w1 by (rule cachedBook_later) (simp_all add: readCache_sent clock_sent)
    with openLibrary_requests[of e i w1]
    obtain more where rq2:
      "requests (snd (openLibrary_fetchBookInfo e i True w1)) = requests w1 @ OpenLibraryBooks i # more"
      by blast
    obtain r2 w2 where ol: "openLibrary_fetchBookInfo e i True w1 = (Inr r2, w2)"
      using openLibrary_fetchBookInfo_resolves by blast
    have "snd (handleFetchBookInfo e i w) = w2"
      using g None ol by (cases r2) (simp_all add: handleFetchBookInfo_run)
    with rq1 rq2 ol show ?thesis
      by simp
  qed
qed

subsection \<open>The fallback from the primary to the secondary provider\<close>

text \<open>
  Claim C1. For every ISBN whose metadata is not cached: when the primary provider fails (its
  request is rejected, or answered with an error status, an unreadable body or no items),
  \<open>googleBooks_fetchBookInfo\<close> resolves with \<open>null\<close>; the lookup then sends the request of
  the secondary provider; when the secondary provider returns a book, \<open>handleFetchBookInfo\<close>
  answers with that book; and \<open>handleFetchBookInfo\<close> always resolves, with a book or with the
  answer \<open>Book metadata not found\<close>, never with the primary provider's exception.
\<close>

theorem handleFetchBookInfo_falls_back:
  assumes notCached: "fst (getCachedBookInfo i w) = Inr None"
    and fails: "primaryFails (googleVolumes e (clock w) i)"
  shows "googleBooks_fetchBookInfo e i True w = (Inr None, sent e (GoogleVolumes i) w) \<and>
         OpenLibraryBooks i \<in> set (requests (snd (handleFetchBookInfo e i w))) \<and>
         (\<forall>b w2. openLibrary_fetchBookInfo e i True (sent e (GoogleVolumes i) w) = (Inr (Some b), w2)
            \<longrightarrow> handleFetchBookInfo e i w = (Inr (BookFound b), w2)) \<and>
         (\<exists>r w'. handleFetchBookInfo e i w = (Inr r, w') \<and>
            ((\<exists>b. r = BookFound b) \<or> r = BookError ''Book metadata not found'' i))"
proof -
  from notCached have miss: "cachedBook i w = None"
    by (simp add: getCachedBookInfo_run)
  have g: "googleBooks_fetchBookInfo e i True w = (Inr None, sent e (GoogleVolumes i) w)"
    using miss fails by (rule googleBooks_miss)
  from handleFetchBookInfo_requests[OF miss, of e] fails
  have invoked: "OpenLibraryBooks i \<in> set (requests (snd (handleFetchBookInfo e i w)))"
    by auto
  have returned: "handleFetchBookInfo e i w = (Inr (BookFound b), w2)"
    if "openLibrary_fetchBookInfo e i True (sent e (GoogleVolumes i) w) = (Inr (Some b), w2)" for b w2
    using that g by (simp add: handleFetchBookInfo_run)
  from g invoked returned handleFetchBookInfo_resolves[of e i w] show ?thesis
    by blast
qed

lemmas example_defs = resolved_def throw_def await_def tryCatch_def dateNow_def chromeStorageLocalGet_def
  chromeStorageLocalSet_def getLocalStorage_def setLocalStorage_def getCachedBookInfo_def cacheBookInfo_def
  fetch_def json_def googleBooks_fetchBookInfo_def fetchFromBooksAPI_def fetchFromISBNEndpoint_def
  openLibrary_fetchBookInfo_def handleFetchBookInfo_def detectedBook_def handleGetDetectedBooks_def
  expired_def cachedData_def CACHE_TTL_MS_def sent_def chromeTabsQuery_def tabISBNsGet_def
  exampleEnv_def exampleWorld_def storedEntry_def entryShape_def primaryFails_def

theorem handleFetchBookInfo_falls_back_witness:
  "OpenLibraryBooks ''0306406152'' \<in> set (requests (snd (handleFetchBookInfo exampleEnv ''0306406152'' exampleWorld))) \<and>
   fst (handleFetchBookInfo exampleEnv ''0306406152'' exampleWorld) = Inr (BookFound (exampleBook ''0306406152''))"
proof -
  let ?w1 = "sent exampleEnv (GoogleVolumes ''0306406152'') exampleWorld"
  have h1: "fst (getCachedBookInfo ''0306406152'' exampleWorld) = Inr None"
    by (simp add: example_defs)
  have h2: "primaryFails (googleVolumes exampleEnv (clock exampleWorld) ''0306406152'')"
    by (simp add: example_defs)
  note fb = handleFetchBookInfo_falls_back[OF h1 h2]
  have "fst (openLibrary_fetchBookInfo exampleEnv ''0306406152'' True ?w1)
      = Inr (Some (exampleBook ''0306406152''))"
    by (simp add: example_defs)
  then have "openLibrary_fetchBookInfo exampleEnv ''0306406152'' True ?w1
      = (Inr (Some (exampleBook ''0306406152'')),
         snd (openLibrary_fetchBookInfo exampleEnv ''0306406152'' True ?w1))"
    by (simp add: prod_eq_iff)
  with fb have "handleFetchBookInfo exampleEnv ''0306406152'' exampleWorld
      = (Inr (BookFound (exampleBook ''0306406152'')),
         snd (openLibrary_fetchBookInfo exampleEnv ''0306406152'' True ?w1))"
    by blast
  with fb show ?thesis
    by simp
qed

subsection \<open>Both providers miss\<close>

lemma handleGetDetectedBooks_single:
  assumes "tabISBNs w n = Some [i]" and "0 < n"
    and "detectedBook e i w = (Inr b, w')"
  shows "handleGetDetectedBooks e (Some n) w = (Inr (DetectedBooks [b]), w')"
  using assms
  by (simp add: handleGetDetectedBooks_def tryCatch_def await_def resolved_def tabISBNsGet_def)

text \<open>
  Claim C2. For every ISBN: when both providers miss, \<open>handleFetchBookInfo\<close> resolves with
  the answer \<open>Book metadata not found\<close>, and the lookup of \<open>handleGetDetectedBooks\<close> for that
  ISBN resolves with the placeholder whose title is \<open>Details Unavailable\<close> and whose source is
  \<open>none\<close>; nothing is thrown. The stored cache is the one from before the lookup. A lookup
  of the same ISBN at any later time sends the request of the primary provider again, and that
  of the secondary provider when the primary one fails again.
\<close>

theorem both_providers_miss:
  assumes g: "googleBooks_fetchBookInfo e i True w = (Inr None, w1)"
    and ol: "openLibrary_fetchBookInfo e i True w1 = (Inr None, w2)"
  shows "handleFetchBookInfo e i w = (Inr (BookError ''Book metadata not found'' i), w2) \<and>
         detectedBook e i w = (Inr (detailsUnavailable i), w2) \<and>
         (\<forall>n. tabISBNs w n = Some [i] \<and> 0 < n \<longrightarrow>
            handleGetDetectedBooks e (Some n) w = (Inr (DetectedBooks [detailsUnavailable i]), w2)) \<and>
         bookSource (detailsUnavailable i) = ''none'' \<and>
         bookTitle (detailsUnavailable i) = ''Details Unavailable'' \<and>
         bookMetadataCache w2 = bookMetadataCache w \<and>
         (\<forall>t. clock w \<le> t \<longrightarrow>
            (\<exists>rest. requests (snd (detectedBook e i (w2\<lparr>clock := t\<rparr>)))
                      = requests w2 @ GoogleVolumes i # rest \<and>
                    (primaryFails (googleVolumes e t i) \<longrightarrow> (\<exists>more. rest = OpenLibraryBooks i # more))))"
proof -
  from g have miss: "cachedBook i w = None" and w1: "w1 = sent e (GoogleVolumes i) w"
    using googleBooks_None by blast+
  from ol have w2: "w2 = sent e (OpenLibraryISBN i) (sent e (OpenLibraryBooks i) w1)"
    by (rule openLibrary_None)
  have h: "handleFetchBookInfo e i w = (Inr (BookError ''Book metadata not found'' i), w2)"
    using g ol by (simp add: handleFetchBookInfo_run)
  then have d: "detectedBook e i w = (Inr (detailsUnavailable i), w2)"
    by (simp add: detectedBook_run)
  have same: "bookMetadataCache w2 = bookMetadataCache w"
    by (simp add: w1 w2 sent_def)
  have retry: "\<exists>rest. requests (snd (detectedBook e i (w2\<lparr>clock := t\<rparr>)))
                      = requests w2 @ GoogleVolumes i # rest \<and>
                    (primaryFails (googleVolumes e t i) \<longrightarrow> (\<exists>more. rest = OpenLibraryBooks i # more))"
    if "clock w \<le> t" for t
  proof -
    have "cachedBook i (w2\<lparr>clock := t\<rparr>) = None"
      using miss by (rule cachedBook_later) (simp_all add: that readCache_def w1 w2 sent_def)
    from handleFetchBookInfo_requests[OF this, of e]
    obtain rest where rest: "requests (snd (handleFetchBookInfo e i (w2\<lparr>clock := t\<rparr>)))
          = requests w2 @ GoogleVolumes i # rest"
        "primaryFails (googleVolumes e t i) \<longrightarrow> (\<exists>more. rest = OpenLibraryBooks i # more)"
      by auto
    have "snd (detectedBook e i (w2\<lparr>clock := t\<rparr>)) = snd (handleFetchBookInfo e i (w2\<lparr>clock := t\<rparr>))"
      by (simp add: detectedBook_run split: prod.splits sum.splits bookInfoResult.splits)
    with rest show ?thesis
      by auto
  qed
  have tab: "handleGetDetectedBooks e (Some n) w = (Inr (DetectedBooks [detailsUnavailable i]), w2)"
    if "tabISBNs w n = Some [i] \<and> 0 < n" for n
    using that d by (intro handleGetDetectedBooks_single) simp_all
  from h d tab same retry show ?thesis
    by (simp add: detailsUnavailable_def)
qed

theorem both_providers_miss_witness:
  "fst (detectedBook exampleEnv ''9780306406157'' exampleWorld)
     = Inr (detailsUnavailable ''9780306406157'') \<and>
   bookSource (detailsUnavailable ''9780306406157'') = ''none'' \<and>
   bookTitle (detailsUnavailable ''9780306406157'') = ''Details Unavailable'' \<and>
   bookMetadataCache (snd (detectedBook exampleEnv ''9780306406157'' exampleWorld)) = None \<and>
   fst (handleGetDetectedBooks exampleEnv (Some 5) exampleWorld)
     = Inr (DetectedBooks [detailsUnavailable ''9780306406157''])"
proof -
  let ?w1 = "snd (googleBooks_fetchBookInfo exampleEnv ''9780306406157'' True exampleWorld)"
  let ?w2 = "snd (openLibrary_fetchBookInfo exampleEnv ''9780306406157'' True ?w1)"
  have "fst (googleBooks_fetchBookInfo exampleEnv ''9780306406157'' True exampleWorld) = Inr None"
    by (simp add: example_defs)
  then have g: "googleBooks_fetchBookInfo exampleEnv ''9780306406157'' True exampleWorld
      = (Inr None, ?w1)"
    by (simp add: prod_eq_iff)
  have "fst (openLibrary_fetchBookInfo exampleEnv ''9780306406157'' True ?w1) = Inr None"
    by (simp add: example_defs)
  then have ol: "openLibrary_fetchBookInfo exampleEnv ''9780306406157'' True ?w1 = (Inr None, ?w2)"
    by (simp add: prod_eq_iff)
  note miss = both_providers_miss[OF g ol]
  have tab: "tabISBNs exampleWorld 5 = Some [''9780306406157''] \<and> (0::nat) < 5"
    by (simp add: exampleWorld_def)
  have empty: "bookMetadataCache exampleWorld = None"
    by (simp add: exampleWorld_def)
  from miss have "detectedBook exampleEnv ''9780306406157'' exampleWorld
      = (Inr (detailsUnavailable ''9780306406157''), ?w2)"
    and "bookSource (detailsUnavailable ''9780306406157'') = ''none''"
    and "bookTitle (detailsUnavailable ''9780306406157'') = ''Details Unavailable''"
    and "bookMetadataCache ?w2 = bookMetadataCache exampleWorld"
    and "\<forall>n. tabISBNs exampleWorld n = Some [''9780306406157''] \<and> 0 < n \<longrightarrow>
            handleGetDetectedBooks exampleEnv (Some n) exampleWorld
              = (Inr (DetectedBooks [detailsUnavailable ''9780306406157'']), ?w2)"
    by blast+
  with tab empty show ?thesis
    by (metis fst_conv snd_conv)
qed

subsection \<open>The cache\<close>

text \<open>
  Claim C7. The time to live is 24 hours. While the store accepts writes: after
  \<open>cacheBookInfo i m\<close>, \<open>getCachedBookInfo i\<close> returns \<open>m\<close> at once and as long as the clock
  has not advanced by more than the time to live. \<open>getCachedBookInfo i\<close> returns \<open>null\<close> when
  the cache has no entry for \<open>i\<close>, and when the clock minus the entry's time of writing is
  strictly greater than the time to live; \<open>getCachedBookInfo\<close> leaves the store as it is,
  so an expired entry is not removed.
  \<open>cacheBookInfo i m\<close> replaces whatever entry \<open>i\<close> had by a new one holding \<open>m\<close> and the
  current time.
\<close>

theorem cache_get_put:
  "CACHE_TTL_MS = 86400000 \<and>
   (storageAvailable w \<and> d \<le> CACHE_TTL_MS \<longrightarrow>
      fst (getCachedBookInfo i ((snd (cacheBookInfo i m w))\<lparr>clock := clock w + d\<rparr>)) = Inr (Some m)) \<and>
   (fst (getLocalStorage Map.empty w) = Inr cache \<and> cache i = None \<longrightarrow>
      fst (getCachedBookInfo i w) = Inr None) \<and>
   (fst (getLocalStorage Map.empty w) = Inr cache \<and> cache i = Some c \<and>
      map_of c ''timestamp'' = Some (Number t) \<and> clock w - t > CACHE_TTL_MS \<longrightarrow>
      fst (getCachedBookInfo i w) = Inr None) \<and>
   snd (getCachedBookInfo i w) = w \<and>
   (storageAvailable w \<longrightarrow>
      storedEntry (snd (cacheBookInfo i m w)) i
        = Some [(''data'', Data m), (''timestamp'', Number (clock w))])"
proof (intro conjI impI)
  show "CACHE_TTL_MS = 86400000"
    by (simp add: CACHE_TTL_MS_def)
next
  assume "storageAvailable w \<and> d \<le> CACHE_TTL_MS"
  then show "fst (getCachedBookInfo i ((snd (cacheBookInfo i m w))\<lparr>clock := clock w + d\<rparr>)) = Inr (Some m)"
    by (simp add: getCachedBookInfo_run cacheBookInfo_run cachedBook_def readCache_def expired_def
        cachedData_def)
next
  assume "fst (getLocalStorage Map.empty w) = Inr cache \<and> cache i = None"
  then show "fst (getCachedBookInfo i w) = Inr None"
    by (simp add: getLocalStorage_run getCachedBookInfo_run cachedBook_def)
next
  assume "fst (getLocalStorage Map.empty w) = Inr cache \<and> cache i = Some c \<and>
      map_of c ''timestamp'' = Some (Number t) \<and> clock w - t > CACHE_TTL_MS"
  then show "fst (getCachedBookInfo i w) = Inr None"
    by (auto simp: getLocalStorage_run getCachedBookInfo_run cachedBook_def expired_def)
next
  show "snd (getCachedBookInfo i w) = w"
    by (simp add: getCachedBookInfo_run)
next
  assume "storageAvailable w"
  then show "storedEntry (snd (cacheBookInfo i m w)) i
        = Some [(''data'', Data m), (''timestamp'', Number (clock w))]"
    by (simp add: cacheBookInfo_run storedEntry_def)
qed

theorem cache_get_put_witness:
  "fst (getCachedBookInfo ''0306406152''
         ((snd (cacheBookInfo ''0306406152'' (exampleBook ''0306406152'') exampleWorld))
            \<lparr>clock := clock exampleWorld + 0\<rparr>)) = Inr (Some (exampleBook ''0306406152'')) \<and>
   fst (getCachedBookInfo ''0306406152'' exampleWorld) = Inr None \<and>
   fst (getCachedBookInfo ''0306406152''
         ((snd (cacheBookInfo ''0306406152'' (exampleBook ''0306406152'') exampleWorld))
            \<lparr>clock := 86401001\<rparr>)) = Inr None"
proof -
  let ?w = "snd (cacheBookInfo ''0306406152'' (exampleBook ''0306406152'') exampleWorld)"
  let ?late = "?w\<lparr>clock := 86401001\<rparr>"
  let ?e = "[(''data'', Data (exampleBook ''0306406152'')), (''timestamp'', Number 1000)]"
  have h1: "storageAvailable exampleWorld \<and> (0::int) \<le> CACHE_TTL_MS"
    by (simp add: exampleWorld_def CACHE_TTL_MS_def)
  have h2: "fst (getLocalStorage Map.empty exampleWorld) = Inr Map.empty \<and>
      (Map.empty :: string \<rightharpoonup> entry) ''0306406152'' = None"
    by (simp add: example_defs)
  have h3: "fst (getLocalStorage Map.empty ?late) = Inr [''0306406152'' \<mapsto> ?e] \<and>
      [''0306406152'' \<mapsto> ?e] ''0306406152'' = Some ?e \<and>
      map_of ?e ''timestamp'' = Some (Number 1000) \<and> clock ?late - 1000 > CACHE_TTL_MS"
    by (simp add: example_defs)
  note inst1 = cache_get_put[of exampleWorld 0 "''0306406152''" "exampleBook ''0306406152''"]
  note inst2 = cache_get_put[of exampleWorld _ "''0306406152''" _ Map.empty]
  note inst3 = cache_get_put[of ?late _ "''0306406152''" _ "[''0306406152'' \<mapsto> ?e]" ?e 1000]
  from inst1 h1 have a: "fst (getCachedBookInfo ''0306406152'' (?w\<lparr>clock := clock exampleWorld + 0\<rparr>))
      = Inr (Some (exampleBook ''0306406152''))"
    by blast
  from inst2 h2 have b: "fst (getCachedBookInfo ''0306406152'' exampleWorld) = Inr None"
    by blast
  from inst3 h3 have c: "fst (getCachedBookInfo ''0306406152'' ?late) = Inr None"
    by blast
  from a b c show ?thesis
    by blast
qed

text \<open>
  Claim C8, as the code has it. While the store accepts writes, the entry that
  \<open>cacheBookInfo i m\<close> stores for \<open>i\<close> has exactly two fields: \<open>data\<close>, holding \<open>m\<close>, and
  \<open>timestamp\<close>, holding the number that the clock showed at the write. The claim names the
  second field \<open>fetchedAt\<close>; the entry written has no field of that name.
\<close>

theorem cacheBookInfo_entry_shape:
  "storageAvailable w \<longrightarrow>
     (\<exists>e. storedEntry (snd (cacheBookInfo i m w)) i = Some e \<and>
          entryShape ''timestamp'' e \<and> map fst e = [''data'', ''timestamp''] \<and>
          map_of e ''data'' = Some (Data m) \<and>
          map_of e ''timestamp'' = Some (Number (clock w)))"
  by (simp add: cacheBookInfo_run storedEntry_def entryShape_def)

theorem cacheBookInfo_fetchedAt_counterexample:
  "storedEntry (snd (cacheBookInfo ''0306406152'' (exampleBook ''0306406152'') exampleWorld)) ''0306406152''
     = Some [(''data'', Data (exampleBook ''0306406152'')), (''timestamp'', Number 1000)] \<and>
   \<not> entryShape ''fetchedAt'' [(''data'', Data (exampleBook ''0306406152'')), (''timestamp'', Number 1000)]"
  by (simp add: example_defs)

theorem cacheBookInfo_entry_shape_witness:
  "storageAvailable exampleWorld \<and>
   storedEntry (snd (cacheBookInfo ''0306406152'' (exampleBook ''0306406152'') exampleWorld)) ''0306406152''
     = Some [(''data'', Data (exampleBook ''0306406152'')), (''timestamp'', Number 1000)] \<and>
   entryShape ''timestamp'' [(''data'', Data (exampleBook ''0306406152'')), (''timestamp'', Number 1000)]"
proof -
  have up: "storageAvailable exampleWorld"
    by (simp add: exampleWorld_def)
  have now: "clock exampleWorld = 1000"
    by (simp add: exampleWorld_def)
  from cacheBookInfo_entry_shape[of exampleWorld "''0306406152''" "exampleBook ''0306406152''",
      rule_format, OF up]
  obtain e where
    e: "storedEntry (snd (cacheBookInfo ''0306406152'' (exampleBook ''0306406152'') exampleWorld))
          ''0306406152'' = Some e"
    and shape: "entryShape ''timestamp'' e"
    by blast
  have "storedEntry (snd (cacheBookInfo ''0306406152'' (exampleBook ''0306406152'') exampleWorld))
          ''0306406152''
      = Some [(''data'', Data (exampleBook ''0306406152'')), (''timestamp'', Number 1000)]"
    by (simp add: example_defs)
  with e shape up show ?thesis
    by simp
qed

end
